theory Spec2Isabelle
  imports Main "HOL-Library.Word" "HOL-Library.Signed_Division"
begin

section \<open>Machine integers of the source\<close>

text \<open>
  The pacer (trunk/webrtc/modules/pacing/paced_sender.cc) computes with C++ \<open>int\<close>
  (32 bits), \<open>int64_t\<close>, \<open>uint32_t\<close> and \<open>uint16_t\<close>. They are words here; a signed
  value is read with \<open>sint\<close>. A conversion between \<open>int\<close> and \<open>uint32_t\<close> keeps the
  bits, so both are the same type. Signed overflow is undefined in C++; the model gives
  it the two's complement result, and every theorem that reads a result as an integer
  says which intermediate values have to be representable.
\<close>

type_synonym int32 = "32 word"
type_synonym uint32 = "32 word"
type_synonym int64 = "64 word"
type_synonym uint16 = "16 word"

text \<open>\<open>a / b\<close> on \<open>int\<close>: the quotient is truncated towards zero.\<close>

definition int_div :: "int32 \<Rightarrow> int32 \<Rightarrow> int32" where
  "int_div a b = word_of_int (sint a sdiv sint b)"

text \<open>\<open>std::max\<close> and \<open>std::min\<close> on \<open>int\<close>, and \<open>std::min\<close> on \<open>int64_t\<close>.\<close>

definition std_max :: "int32 \<Rightarrow> int32 \<Rightarrow> int32" where
  "std_max a b = (if sint a < sint b then b else a)"

definition std_min :: "int32 \<Rightarrow> int32 \<Rightarrow> int32" where
  "std_min a b = (if sint b < sint a then b else a)"

definition std_min64 :: "int64 \<Rightarrow> int64 \<Rightarrow> int64" where
  "std_min64 a b = (if sint b < sint a then b else a)"

text \<open>The conversion of an \<open>int64_t\<close> to \<open>int\<close> keeps the low 32 bits.\<close>

definition to_int :: "int64 \<Rightarrow> int32" where
  "to_int x = ucast x"

definition kMinPacketLimitMs :: int32 where
  "kMinPacketLimitMs = 5"

definition kMaxIntervalTimeMs :: int32 where
  "kMaxIntervalTimeMs = 30"

definition kMaxQueueTimeWithoutSendingMs :: int32 where
  "kMaxQueueTimeWithoutSendingMs = 30"

definition kMaxPaddingKbps :: int32 where
  "kMaxPaddingKbps = 800"

section \<open>Packets and the duplicate-free packet list\<close>

record Packet =
  ssrc :: uint32
  sequence_number :: uint16
  capture_time_ms :: int64
  bytes :: int32

record PacketList =
  packet_list :: "Packet list"
  sequence_number_set :: "uint16 set"

definition PacketList_new :: PacketList where
  "PacketList_new = \<lparr>packet_list = [], sequence_number_set = {}\<rparr>"

definition PacketList_empty :: "PacketList \<Rightarrow> bool" where
  "PacketList_empty l = (packet_list l = [])"

text \<open>
  \<open>pop_front\<close> of an empty \<open>std::list\<close> is undefined; the pacer calls it only after
  \<open>empty()\<close> returned false, and the model leaves an empty list as it is.
\<close>

definition PacketList_pop_front :: "PacketList \<Rightarrow> PacketList" where
  "PacketList_pop_front l =
     (case packet_list l of
        [] \<Rightarrow> l
      | packet # rest \<Rightarrow>
          \<lparr>packet_list = rest,
           sequence_number_set = sequence_number_set l - {sequence_number packet}\<rparr>)"

definition PacketList_push_back :: "Packet \<Rightarrow> PacketList \<Rightarrow> PacketList" where
  "PacketList_push_back packet l =
     (if sequence_number packet \<notin> sequence_number_set l
      then \<lparr>packet_list = packet_list l @ [packet],
            sequence_number_set = insert (sequence_number packet) (sequence_number_set l)\<rparr>
      else l)"

section \<open>Interval budgets\<close>

record IntervalBudget =
  target_rate_kbps :: int32
  bytes_remaining :: int32


definition IncreaseBudget :: "int32 \<Rightarrow> IntervalBudget \<Rightarrow> IntervalBudget" where
  "IncreaseBudget delta_time_ms b =
     (let bytes = int_div (target_rate_kbps b * delta_time_ms) 8 in
      if sint (bytes_remaining b) < 0
      then b\<lparr>bytes_remaining := bytes_remaining b + bytes\<rparr>
      else b\<lparr>bytes_remaining := bytes\<rparr>)"

definition UseBudget :: "int32 \<Rightarrow> IntervalBudget \<Rightarrow> IntervalBudget" where
  "UseBudget bytes b =
     b\<lparr>bytes_remaining :=
         std_max (bytes_remaining b - bytes) (int_div (- 100 * target_rate_kbps b) 8)\<rparr>"
  for bytes

section \<open>The clock and the sender callback\<close>

text \<open>
  Modelled from the spec: \<open>TickTime\<close> and \<open>TickInterval\<close> (system_wrappers, not under
  src/). The spec's clock gives millisecond timestamps, so a \<open>TickTime\<close> is its 64-bit
  millisecond value, \<open>(a - b).Milliseconds()\<close> is the 64-bit difference, and a
  default-constructed \<open>TickTime\<close> is 0. Every call of \<open>TickTime::Now()\<close> or
  \<open>TickTime::MillisecondTimestamp()\<close> is one reading of the clock: the clock is the
  sequence of its readings, and the state counts the readings taken so far.
\<close>

type_synonym TickTime = int64

type_synonym clock = "nat \<Rightarrow> TickTime"

text \<open>
  Modelled from the spec: the sender callback \<open>PacedSender::Callback\<close> (declared in
  paced_sender.h, not under src/), with its two operations, send a packet given by
  ssrc, sequence number and capture time, and send up to a number of padding bytes,
  returning the number sent. It is the environment: a call is recorded in the order it
  is made, with the arguments the source passes, and the number of bytes
  \<open>TimeToSendPadding\<close> returns is a function of the amount requested. The model is
  sequential: the callback does not call back into the pacer, and no other thread runs
  between two statements of an operation.
\<close>

datatype Callback_call =
  TimeToSendPacket uint32 uint16 int64
| TimeToSendPadding int32

text \<open>
  Modelled from the spec: the enumeration \<open>Priority\<close> (declared in paced_sender.h, not
  under src/), a closed tag of three values, named as the source names them.
\<close>

datatype Priority = kHighPriority | kNormalPriority | kLowPriority

section \<open>The pacer\<close>

text \<open>
  The fields of \<open>PacedSender\<close>, without the callback pointer, the critical section and
  \<open>pace_multiplier_\<close> (a float, used only where a target rate is set).
\<close>

record PacedSender =
  enabled :: bool
  paused :: bool
  media_budget :: IntervalBudget
  padding_budget :: IntervalBudget
  pad_up_to_bitrate_budget :: IntervalBudget
  time_last_update :: TickTime
  time_last_send :: TickTime
  capture_time_ms_last_queued :: int64
  capture_time_ms_last_sent :: int64
  high_priority_packets :: PacketList
  normal_priority_packets :: PacketList
  low_priority_packets :: PacketList
  clock_reads :: nat

definition Now :: "clock \<Rightarrow> PacedSender \<Rightarrow> TickTime \<times> PacedSender" where
  "Now clk s = (clk (clock_reads s), s\<lparr>clock_reads := Suc (clock_reads s)\<rparr>)"

definition MillisecondTimestamp :: "clock \<Rightarrow> PacedSender \<Rightarrow> int64 \<times> PacedSender" where
  "MillisecondTimestamp clk s = Now clk s"

definition Pause :: "PacedSender \<Rightarrow> PacedSender" where
  "Pause s = s\<lparr>paused := True\<rparr>"

definition Resume :: "PacedSender \<Rightarrow> PacedSender" where
  "Resume s = s\<lparr>paused := False\<rparr>"

definition SetStatus :: "bool \<Rightarrow> PacedSender \<Rightarrow> PacedSender" where
  "SetStatus enable s = s\<lparr>enabled := enable\<rparr>"

definition UpdateMediaBytesSent :: "clock \<Rightarrow> int32 \<Rightarrow> PacedSender \<Rightarrow> PacedSender" where
  "UpdateMediaBytesSent clk num_bytes s =
     (let (now, s1) = Now clk s in
      s1\<lparr>time_last_send := now,
         media_budget := UseBudget num_bytes (media_budget s1),
         pad_up_to_bitrate_budget := UseBudget num_bytes (pad_up_to_bitrate_budget s1)\<rparr>)"

definition UpdateBytesPerInterval :: "uint32 \<Rightarrow> PacedSender \<Rightarrow> PacedSender" where
  "UpdateBytesPerInterval delta_time_ms s =
     s\<lparr>media_budget := IncreaseBudget delta_time_ms (media_budget s),
       padding_budget := IncreaseBudget delta_time_ms (padding_budget s),
       pad_up_to_bitrate_budget := IncreaseBudget delta_time_ms (pad_up_to_bitrate_budget s)\<rparr>"

text \<open>The list a priority selects, as the second \<open>switch\<close> of \<open>SendPacket\<close> does.\<close>

fun packets_of :: "Priority \<Rightarrow> PacedSender \<Rightarrow> PacketList" where
  "packets_of kHighPriority s = high_priority_packets s"
| "packets_of kNormalPriority s = normal_priority_packets s"
| "packets_of kLowPriority s = low_priority_packets s"

fun packets_update :: "Priority \<Rightarrow> (PacketList \<Rightarrow> PacketList) \<Rightarrow> PacedSender \<Rightarrow> PacedSender" where
  "packets_update kHighPriority f s = s\<lparr>high_priority_packets := f (high_priority_packets s)\<rparr>"
| "packets_update kNormalPriority f s =
     s\<lparr>normal_priority_packets := f (normal_priority_packets s)\<rparr>"
| "packets_update kLowPriority f s = s\<lparr>low_priority_packets := f (low_priority_packets s)\<rparr>"

definition SendPacket ::
  "clock \<Rightarrow> Priority \<Rightarrow> uint32 \<Rightarrow> uint16 \<Rightarrow> int64 \<Rightarrow> int32 \<Rightarrow> PacedSender \<Rightarrow> bool \<times> PacedSender"
where
  "SendPacket clk priority ssrc sequence_number capture_time_ms bytes s =
     (if \<not> enabled s then (True, UpdateMediaBytesSent clk bytes s)
      else
        let (capture_time, s1) =
              (if sint capture_time_ms < 0 then MillisecondTimestamp clk s
               else (capture_time_ms, s));
            packet = \<lparr>ssrc = ssrc, sequence_number = sequence_number,
                      capture_time_ms = capture_time, bytes = bytes\<rparr>
        in
        if paused s1 then
          (case priority of
             kHighPriority \<Rightarrow>
               (False, s1\<lparr>high_priority_packets :=
                            PacketList_push_back packet (high_priority_packets s1)\<rparr>)
           | kNormalPriority \<Rightarrow>
               let s2 = (if sint (capture_time_ms_last_queued s1) < sint capture_time
                         then s1\<lparr>capture_time_ms_last_queued := capture_time\<rparr> else s1)
               in (False, s2\<lparr>normal_priority_packets :=
                               PacketList_push_back packet (normal_priority_packets s2)\<rparr>)
           | kLowPriority \<Rightarrow>
               (False, s1\<lparr>normal_priority_packets :=
                            PacketList_push_back packet (normal_priority_packets s1)\<rparr>))
        else if PacketList_empty (packets_of priority s1)
                \<and> 0 < sint (bytes_remaining (media_budget s1))
        then (True, UpdateMediaBytesSent clk bytes s1)
        else (False, packets_update priority (PacketList_push_back packet) s1))"
  for ssrc sequence_number capture_time_ms bytes

definition QueueInMs :: "clock \<Rightarrow> PacedSender \<Rightarrow> int32 \<times> PacedSender" where
  "QueueInMs clk s =
     (let (now_ms, s1) = MillisecondTimestamp clk s;
          oldest0 = now_ms;
          oldest1 = (case packet_list (high_priority_packets s1) of
                       [] \<Rightarrow> oldest0
                     | front # _ \<Rightarrow> std_min64 oldest0 (capture_time_ms front));
          oldest2 = (case packet_list (normal_priority_packets s1) of
                       [] \<Rightarrow> oldest1
                     | front # _ \<Rightarrow> std_min64 oldest1 (capture_time_ms front));
          oldest3 = (case packet_list (low_priority_packets s1) of
                       [] \<Rightarrow> oldest2
                     | front # _ \<Rightarrow> std_min64 oldest2 (capture_time_ms front))
      in (to_int (now_ms - oldest3), s1))"

text \<open>What \<open>GetNextPacket\<close> writes through its five pointers when it returns true.\<close>

record NextPacket =
  np_ssrc :: uint32
  np_sequence_number :: uint16
  np_capture_time_ms :: int64
  np_priority :: Priority
  np_last_packet :: bool

text \<open>
  \<open>GetNextPacketFromList\<close> on the list of a priority. \<open>front()\<close> of an empty list is
  undefined; \<open>GetNextPacket\<close> calls this only on a list that is not empty, and the model
  answers \<open>None\<close> for an empty one.
\<close>

definition GetNextPacketFromList ::
  "clock \<Rightarrow> Priority \<Rightarrow> PacedSender \<Rightarrow> NextPacket option \<times> PacedSender"
where
  "GetNextPacketFromList clk priority s =
     (case packet_list (packets_of priority s) of
        [] \<Rightarrow> (None, s)
      | packet # _ \<Rightarrow>
          let s1 = UpdateMediaBytesSent clk (bytes packet) s;
              s2 = packets_update priority PacketList_pop_front s1;
              last_packet =
                (case packet_list (packets_of priority s2) of
                   [] \<Rightarrow> True
                 | front # _ \<Rightarrow> sint (capture_time_ms packet) < sint (capture_time_ms front))
          in (Some \<lparr>np_ssrc = ssrc packet, np_sequence_number = sequence_number packet,
                     np_capture_time_ms = capture_time_ms packet, np_priority = priority,
                     np_last_packet = last_packet\<rparr>, s2))"

definition GetNextPacket :: "clock \<Rightarrow> PacedSender \<Rightarrow> NextPacket option \<times> PacedSender" where
  "GetNextPacket clk s =
     (if sint (bytes_remaining (media_budget s)) \<le> 0 then
        let (now, s1) = Now clk s in
        if sint kMaxQueueTimeWithoutSendingMs < sint (now - time_last_send s1) then
          if \<not> PacketList_empty (high_priority_packets s1)
          then GetNextPacketFromList clk kHighPriority s1
          else if \<not> PacketList_empty (normal_priority_packets s1)
          then GetNextPacketFromList clk kNormalPriority s1
          else (None, s1)
        else (None, s1)
      else if \<not> PacketList_empty (high_priority_packets s)
      then GetNextPacketFromList clk kHighPriority s
      else if \<not> PacketList_empty (normal_priority_packets s)
      then GetNextPacketFromList clk kNormalPriority s
      else if \<not> PacketList_empty (low_priority_packets s)
      then GetNextPacketFromList clk kLowPriority s
      else (None, s))"

text \<open>The number of packets queued: what the loop of \<open>Process\<close> decreases.\<close>

definition queued :: "PacedSender \<Rightarrow> nat" where
  "queued s =
     length (packet_list (high_priority_packets s))
     + length (packet_list (normal_priority_packets s))
     + length (packet_list (low_priority_packets s))"

text \<open>The body of the \<open>while\<close> loop of \<open>Process\<close> before the callback is called.\<close>

definition note_sent :: "NextPacket \<Rightarrow> PacedSender \<Rightarrow> PacedSender" where
  "note_sent p s =
     (if np_priority p = kNormalPriority
         \<and> sint (capture_time_ms_last_sent s) < sint (np_capture_time_ms p)
      then s\<lparr>capture_time_ms_last_sent := np_capture_time_ms p\<rparr>
      else s)"

section \<open>The loop of Process terminates\<close>

lemma queued_UpdateMediaBytesSent [simp]:
  "queued (UpdateMediaBytesSent clk n s) = queued s"
  by (simp add: UpdateMediaBytesSent_def Now_def queued_def)

lemma queued_note_sent [simp]: "queued (note_sent p s) = queued s"
  by (simp add: note_sent_def queued_def)

lemma queued_GetNextPacketFromList:
  "GetNextPacketFromList clk priority s = (Some p, s') \<Longrightarrow> queued s' < queued s"
proof -
  assume g: "GetNextPacketFromList clk priority s = (Some p, s')"
  then obtain packet rest where l: "packet_list (packets_of priority s) = packet # rest"
    by (cases "packet_list (packets_of priority s)") (auto simp: GetNextPacketFromList_def)
  with g have s': "s' = packets_update priority PacketList_pop_front
                          (UpdateMediaBytesSent clk (bytes packet) s)"
    by (simp add: GetNextPacketFromList_def Let_def)
  have same: "packet_list (packets_of priority (UpdateMediaBytesSent clk (bytes packet) s))
                = packet # rest"
    using l by (cases priority) (simp_all add: UpdateMediaBytesSent_def Now_def)
  have "queued (packets_update priority PacketList_pop_front
                  (UpdateMediaBytesSent clk (bytes packet) s))
          < queued (UpdateMediaBytesSent clk (bytes packet) s)"
    using same by (cases priority) (simp_all add: queued_def PacketList_pop_front_def)
  then show ?thesis by (simp add: s')
qed

lemma queued_GetNextPacket:
  "GetNextPacket clk s = (Some p, s') \<Longrightarrow> queued s' < queued s"
proof -
  assume g: "GetNextPacket clk s = (Some p, s')"
  have rd: "queued (snd (Now clk s)) = queued s"
    by (simp add: Now_def queued_def)
  from g consider
      priority where "GetNextPacketFromList clk priority s = (Some p, s')"
    | priority where "GetNextPacketFromList clk priority (snd (Now clk s)) = (Some p, s')"
    by (auto simp: GetNextPacket_def Let_def split: if_splits prod.splits)
  then show ?thesis
  proof cases
    case 1
    then show ?thesis by (rule queued_GetNextPacketFromList)
  next
    case 2
    then have "queued s' < queued (snd (Now clk s))" by (rule queued_GetNextPacketFromList)
    then show ?thesis by (simp add: rd)
  qed
qed

text \<open>
  The \<open>while\<close> loop of \<open>Process\<close>: as long as \<open>GetNextPacket\<close> returns true, the
  watermark is updated and \<open>TimeToSendPacket\<close> is called. The result is the state at
  the exit of the loop and the calls made, in order.
\<close>

function Process_loop :: "clock \<Rightarrow> PacedSender \<Rightarrow> PacedSender \<times> Callback_call list" where
  "Process_loop clk s =
     (case GetNextPacket clk s of
        (None, s1) \<Rightarrow> (s1, [])
      | (Some p, s1) \<Rightarrow>
          let (s2, calls) = Process_loop clk (note_sent p s1)
          in (s2, TimeToSendPacket (np_ssrc p) (np_sequence_number p) (np_capture_time_ms p)
                    # calls))"
  by pat_completeness auto
termination
proof (relation "measure (\<lambda>(clk, s). queued s)")
  show "wf (measure (\<lambda>(clk, s). queued s))" by simp
next
  fix clk s x1 x2 p
  assume "(x1, x2) = GetNextPacket clk s" and "x1 = Some p"
  then have "GetNextPacket clk s = (Some p, x2)" by simp
  then have "queued x2 < queued s" by (rule queued_GetNextPacket)
  then show "((clk, note_sent p x2), (clk, s)) \<in> measure (\<lambda>(clk, s). queued s)"
    by simp
qed

declare Process_loop.simps [simp del]

text \<open>
  The last step of \<open>Process\<close>: padding, when nothing is queued and both padding budgets
  are positive. \<open>bytes_sent\<close> is the callback's answer to the amount requested.
\<close>

definition Process_padding ::
  "(int32 \<Rightarrow> int32) \<Rightarrow> PacedSender \<Rightarrow> PacedSender \<times> Callback_call list"
where
  "Process_padding bytes_sent s =
     (if PacketList_empty (high_priority_packets s)
         \<and> PacketList_empty (normal_priority_packets s)
         \<and> PacketList_empty (low_priority_packets s)
         \<and> 0 < sint (bytes_remaining (padding_budget s))
         \<and> 0 < sint (bytes_remaining (pad_up_to_bitrate_budget s))
      then
        let padding_needed = std_min (bytes_remaining (padding_budget s))
                                     (bytes_remaining (pad_up_to_bitrate_budget s));
            n = bytes_sent padding_needed
        in (s\<lparr>media_budget := UseBudget n (media_budget s),
               padding_budget := UseBudget n (padding_budget s),
               pad_up_to_bitrate_budget := UseBudget n (pad_up_to_bitrate_budget s)\<rparr>,
            [TimeToSendPadding padding_needed])
      else (s, []))"

text \<open>
  \<open>Process\<close>. The result is the new state and the calls of the sender callback, in
  order; the value the source returns is always 0.
\<close>

definition Process ::
  "clock \<Rightarrow> (int32 \<Rightarrow> int32) \<Rightarrow> PacedSender \<Rightarrow> PacedSender \<times> Callback_call list"
where
  "Process clk bytes_sent s =
     (let (now, s0) = Now clk s;
          elapsed_time_ms = to_int (now - time_last_update s0);
          s1 = s0\<lparr>time_last_update := now\<rparr>
      in
      if \<not> paused s1 \<and> 0 < sint elapsed_time_ms then
        let delta_time_ms = std_min kMaxIntervalTimeMs elapsed_time_ms;
            s2 = UpdateBytesPerInterval delta_time_ms s1;
            (s3, calls) = Process_loop clk s2;
            (s4, padding) = Process_padding bytes_sent s3
        in (s4, calls @ padding)
      else (s1, []))"

section \<open>Notions used in the statements\<close>

subsection \<open>Parts of the operations\<close>

text \<open>The packet \<open>SendPacket\<close> builds: a negative capture time is replaced by the clock.\<close>

definition packet_sent :: "clock \<Rightarrow> PacedSender \<Rightarrow> uint32 \<Rightarrow> uint16 \<Rightarrow> int64 \<Rightarrow> int32 \<Rightarrow> Packet" where
  "packet_sent clk s sid sn t n =
     \<lparr>ssrc = sid, sequence_number = sn,
      capture_time_ms = (if sint t < 0 then clk (clock_reads s) else t), bytes = n\<rparr>"

text \<open>
  The list \<open>SendPacket\<close> pushes to when it queues: that of the priority, but the normal
  list for a packet of low priority while the pacer is paused.
\<close>

definition queued_as :: "PacedSender \<Rightarrow> Priority \<Rightarrow> Priority" where
  "queued_as s priority =
     (if paused s \<and> priority = kLowPriority then kNormalPriority else priority)"

text \<open>
  The local variable \<open>oldest_packet_capture_time\<close> of \<open>QueueInMs\<close> after its three
  tests, for the clock value \<open>now_ms\<close>.
\<close>

definition oldest_packet_capture_time :: "int64 \<Rightarrow> PacedSender \<Rightarrow> int64" where
  "oldest_packet_capture_time now_ms s =
     (let oldest1 = (case packet_list (high_priority_packets s) of
                       [] \<Rightarrow> now_ms
                     | front # _ \<Rightarrow> std_min64 now_ms (capture_time_ms front));
          oldest2 = (case packet_list (normal_priority_packets s) of
                       [] \<Rightarrow> oldest1
                     | front # _ \<Rightarrow> std_min64 oldest1 (capture_time_ms front))
      in case packet_list (low_priority_packets s) of
           [] \<Rightarrow> oldest2
         | front # _ \<Rightarrow> std_min64 oldest2 (capture_time_ms front))"

text \<open>
  The first part of \<open>Process\<close>: the time elapsed since the last call, as the \<open>int\<close>
  the source computes, and the state in which the loop starts (the clock read, the time
  of the update stored, the three budgets refilled).
\<close>

definition Process_elapsed :: "clock \<Rightarrow> PacedSender \<Rightarrow> int32" where
  "Process_elapsed clk s = to_int (clk (clock_reads s) - time_last_update s)"

definition Process_refilled :: "clock \<Rightarrow> PacedSender \<Rightarrow> PacedSender" where
  "Process_refilled clk s =
     UpdateBytesPerInterval (std_min kMaxIntervalTimeMs (Process_elapsed clk s))
       (s\<lparr>clock_reads := Suc (clock_reads s), time_last_update := clk (clock_reads s)\<rparr>)"

text \<open>A number of consecutive calls of \<open>Process\<close>, and the calls they make, in order.\<close>

fun Process_ticks ::
  "clock \<Rightarrow> (int32 \<Rightarrow> int32) \<Rightarrow> nat \<Rightarrow> PacedSender \<Rightarrow> PacedSender \<times> Callback_call list"
where
  "Process_ticks clk bytes_sent 0 s = (s, [])"
| "Process_ticks clk bytes_sent (Suc k) s =
     (let (s1, calls1) = Process clk bytes_sent s;
          (s2, calls2) = Process_ticks clk bytes_sent k s1
      in (s2, calls1 @ calls2))"

subsection \<open>Properties of states and results\<close>

text \<open>
  The result \<open>r\<close> of a call in state \<open>s\<close> is the packet at the head of the list of a
  priority, and that packet has been popped.
\<close>

definition returned_head :: "Priority \<Rightarrow> PacedSender \<Rightarrow> NextPacket option \<times> PacedSender \<Rightarrow> bool"
where
  "returned_head priority s r =
     (case (packet_list (packets_of priority s), fst r) of
        (packet # rest, Some p) \<Rightarrow>
           np_ssrc p = ssrc packet \<and> np_sequence_number p = sequence_number packet
           \<and> np_capture_time_ms p = capture_time_ms packet \<and> np_priority p = priority
           \<and> packet_list (packets_of priority (snd r)) = rest
      | _ \<Rightarrow> False)"

text \<open>
  The capture times of the packets at the head of the lists that are not empty, as
  integers.
\<close>

definition head_capture_times :: "PacedSender \<Rightarrow> int list" where
  "head_capture_times s =
     map (\<lambda>packet. sint (capture_time_ms packet))
       (concat (map (\<lambda>l. take 1 (packet_list l))
          [high_priority_packets s, normal_priority_packets s, low_priority_packets s]))"



text \<open>A call of \<open>TimeToSendPadding\<close>.\<close>

fun is_padding_call :: "Callback_call \<Rightarrow> bool" where
  "is_padding_call (TimeToSendPadding n) = True"
| "is_padding_call (TimeToSendPacket sid sn t) = False"


text \<open>The queued packets in the order high, normal, low.\<close>

definition drain_order :: "PacedSender \<Rightarrow> Packet list" where
  "drain_order s =
     packet_list (high_priority_packets s) @ packet_list (normal_priority_packets s)
     @ packet_list (low_priority_packets s)"




subsection \<open>Example states\<close>

text \<open>
  A pacer at 100 kbps whose media budget is used up, with one packet of normal and one
  of low priority queued, last sent at time 0.
\<close>

definition starved_pacer :: PacedSender where
  "starved_pacer =
     \<lparr>enabled = True, paused = False,
      media_budget = \<lparr>target_rate_kbps = 100, bytes_remaining = - 1125\<rparr>,
      padding_budget = \<lparr>target_rate_kbps = 800, bytes_remaining = 0\<rparr>,
      pad_up_to_bitrate_budget = \<lparr>target_rate_kbps = 0, bytes_remaining = 0\<rparr>,
      time_last_update = 0, time_last_send = 0,
      capture_time_ms_last_queued = 0, capture_time_ms_last_sent = 0,
      high_priority_packets = \<lparr>packet_list = [], sequence_number_set = {}\<rparr>,
      normal_priority_packets =
        \<lparr>packet_list = [\<lparr>ssrc = 1, sequence_number = 7, capture_time_ms = 3, bytes = 1500\<rparr>],
         sequence_number_set = {7}\<rparr>,
      low_priority_packets =
        \<lparr>packet_list = [\<lparr>ssrc = 1, sequence_number = 9, capture_time_ms = 2, bytes = 200\<rparr>],
         sequence_number_set = {9}\<rparr>,
      clock_reads = 0\<rparr>"

text \<open>The starved pacer with a second packet of normal priority queued.\<close>

definition starved_two :: PacedSender where
  "starved_two =
     starved_pacer
       \<lparr>normal_priority_packets :=
          \<lparr>packet_list = [\<lparr>ssrc = 1, sequence_number = 7, capture_time_ms = 3, bytes = 1500\<rparr>,
                          \<lparr>ssrc = 1, sequence_number = 8, capture_time_ms = 4, bytes = 1500\<rparr>],
           sequence_number_set = {7, 8}\<rparr>\<rparr>"

text \<open>
  A pacer as it is after construction at time 0 with 300 kbps and a pace multiplier
  of 1, followed by \<open>UpdateBitrate(300, 500)\<close>: not enabled, not paused, nothing queued,
  the budgets refilled once for 5 ms.
\<close>

definition idle_pacer :: PacedSender where
  "idle_pacer =
     \<lparr>enabled = False, paused = False,
      media_budget = \<lparr>target_rate_kbps = 300, bytes_remaining = 187\<rparr>,
      padding_budget = \<lparr>target_rate_kbps = 800, bytes_remaining = 500\<rparr>,
      pad_up_to_bitrate_budget = \<lparr>target_rate_kbps = 500, bytes_remaining = 0\<rparr>,
      time_last_update = 0, time_last_send = 0,
      capture_time_ms_last_queued = 0, capture_time_ms_last_sent = 0,
      high_priority_packets = PacketList_new,
      normal_priority_packets = PacketList_new,
      low_priority_packets = PacketList_new,
      clock_reads = 0\<rparr>"

text \<open>The idle pacer, enabled, when the loop of a \<open>Process\<close> at time 5 starts.\<close>

definition idle_refilled :: PacedSender where
  "idle_refilled =
     \<lparr>enabled = True, paused = False,
      media_budget = \<lparr>target_rate_kbps = 300, bytes_remaining = 187\<rparr>,
      padding_budget = \<lparr>target_rate_kbps = 800, bytes_remaining = 500\<rparr>,
      pad_up_to_bitrate_budget = \<lparr>target_rate_kbps = 500, bytes_remaining = 312\<rparr>,
      time_last_update = 5, time_last_send = 0,
      capture_time_ms_last_queued = 0, capture_time_ms_last_sent = 0,
      high_priority_packets = PacketList_new,
      normal_priority_packets = PacketList_new,
      low_priority_packets = PacketList_new,
      clock_reads = 1\<rparr>"

text \<open>
  An enabled pacer, paused, with one packet of sequence number 42 in the normal list.
\<close>

definition paused_pacer :: PacedSender where
  "paused_pacer =
     \<lparr>enabled = True, paused = True,
      media_budget = \<lparr>target_rate_kbps = 750, bytes_remaining = 468\<rparr>,
      padding_budget = \<lparr>target_rate_kbps = 800, bytes_remaining = 500\<rparr>,
      pad_up_to_bitrate_budget = \<lparr>target_rate_kbps = 0, bytes_remaining = 0\<rparr>,
      time_last_update = 0, time_last_send = 0,
      capture_time_ms_last_queued = 10, capture_time_ms_last_sent = 0,
      high_priority_packets = PacketList_new,
      normal_priority_packets =
        \<lparr>packet_list = [\<lparr>ssrc = 1, sequence_number = 42, capture_time_ms = 10, bytes = 1200\<rparr>],
         sequence_number_set = {42}\<rparr>,
      low_priority_packets = PacketList_new,
      clock_reads = 0\<rparr>"


text \<open>
  A state resumed and given a media budget of \<open>m\<close> bytes, its lists as they are.
\<close>

definition resumed_with :: "int32 \<Rightarrow> PacedSender \<Rightarrow> PacedSender" where
  "resumed_with m s = (Resume s)\<lparr>media_budget := (media_budget s)\<lparr>bytes_remaining := m\<rparr>\<rparr>"

section \<open>Budgets: refill and use\<close>

lemma sint_int_div_8:
  "sint (int_div a 8) = sint a sdiv 8"
proof -
  have r: "- (2 ^ 31) \<le> sint a" "sint a < 2 ^ 31"
    using sint_ge [of a] sint_lt [of a] by simp_all
  have "sint a sdiv 8 = sint a div 8 + of_bool (sint a < 0 \<and> \<not> 8 dvd sint a)"
    by (auto simp: signed_divide_int_eq_divide_int sgn_if)
  then have "- (2 ^ 31) \<le> sint a sdiv 8 \<and> sint a sdiv 8 < 2 ^ 31"
    using r by (auto split: if_splits)
  then show ?thesis
    by (simp add: int_div_def sint_sbintrunc' signed_take_bit_int_eq_self)
qed

text \<open>
  Where the product of rate and interval fits in an \<open>int\<close>, the refill is the exact
  quotient, truncated towards zero.
\<close>

lemma IncreaseBudget_bytes_exact:
  assumes "- (2 ^ 31) \<le> sint rate * sint delta_time_ms" "sint rate * sint delta_time_ms < 2 ^ 31"
  shows "sint (int_div (rate * delta_time_ms) 8) = (sint rate * sint delta_time_ms) sdiv 8"
proof -
  have "sint (rate * delta_time_ms) = sint rate * sint delta_time_ms"
    using assms by (simp add: sint_word_ariths signed_take_bit_int_eq_self)
  then show ?thesis by (simp add: sint_int_div_8)
qed

lemma sint_plus_exact:
  fixes a b :: int32
  assumes "- (2 ^ 31) \<le> sint a + sint b" "sint a + sint b < 2 ^ 31"
  shows "sint (a + b) = sint a + sint b"
  using assms by (simp add: sint_word_ariths signed_take_bit_int_eq_self)

text \<open>
  C2, as amended. A refill \<open>IncreaseBudget delta_time_ms\<close> with \<open>delta_time_ms \<ge> 0\<close>,
  where the product \<open>target_rate_kbps * delta_time_ms\<close> is representable in an \<open>int\<close>:
  a budget that was not negative is afterwards, as an integer, that product divided by
  8, the quotient truncated towards zero (what was left is discarded); a negative
  budget is afterwards the old value plus that quotient, where the sum is representable
  in an \<open>int\<close>, which it always is for a target rate that is not negative. The target
  rate is unchanged.
\<close>

theorem IncreaseBudget_refill:
  assumes "0 \<le> sint delta_time_ms"
    and "- (2 ^ 31) \<le> sint (target_rate_kbps b) * sint delta_time_ms"
    and "sint (target_rate_kbps b) * sint delta_time_ms < 2 ^ 31"
  shows "(0 \<le> sint (bytes_remaining b) \<longrightarrow>
            sint (bytes_remaining (IncreaseBudget delta_time_ms b))
              = (sint (target_rate_kbps b) * sint delta_time_ms) sdiv 8)
       \<and> (sint (bytes_remaining b) < 0
            \<and> - (2 ^ 31) \<le> sint (bytes_remaining b)
                  + (sint (target_rate_kbps b) * sint delta_time_ms) sdiv 8 \<longrightarrow>
            sint (bytes_remaining (IncreaseBudget delta_time_ms b))
              = sint (bytes_remaining b)
                + (sint (target_rate_kbps b) * sint delta_time_ms) sdiv 8)
       \<and> (sint (bytes_remaining b) < 0 \<and> 0 \<le> sint (target_rate_kbps b) \<longrightarrow>
            sint (bytes_remaining (IncreaseBudget delta_time_ms b))
              = sint (bytes_remaining b)
                + (sint (target_rate_kbps b) * sint delta_time_ms) sdiv 8)
       \<and> target_rate_kbps (IncreaseBudget delta_time_ms b) = target_rate_kbps b"
proof -
  let ?q = "(sint (target_rate_kbps b) * sint delta_time_ms) sdiv 8"
  have q: "sint (int_div (target_rate_kbps b * delta_time_ms) 8) = ?q"
    using assms(2,3) by (rule IncreaseBudget_bytes_exact)
  have reset: "sint (bytes_remaining (IncreaseBudget delta_time_ms b)) = ?q"
    if "0 \<le> sint (bytes_remaining b)"
    using that q by (simp add: IncreaseBudget_def Let_def)
  have paid: "sint (bytes_remaining (IncreaseBudget delta_time_ms b))
                = sint (bytes_remaining b) + ?q"
    if neg: "sint (bytes_remaining b) < 0" and lo: "- (2 ^ 31) \<le> sint (bytes_remaining b) + ?q"
  proof -
    have "?q < 2 ^ 31"
      using sint_lt [of "int_div (target_rate_kbps b * delta_time_ms) 8"] by (simp add: q)
    then have up: "sint (bytes_remaining b) + ?q < 2 ^ 31" using neg by simp
    have "bytes_remaining (IncreaseBudget delta_time_ms b)
            = bytes_remaining b + int_div (target_rate_kbps b * delta_time_ms) 8"
      using neg by (simp add: IncreaseBudget_def Let_def)
    moreover have "sint (bytes_remaining b + int_div (target_rate_kbps b * delta_time_ms) 8)
            = sint (bytes_remaining b) + sint (int_div (target_rate_kbps b * delta_time_ms) 8)"
      using lo up by (intro sint_plus_exact) (simp_all only: q)
    ultimately show ?thesis by (simp only: q)
  qed
  have paid0: "sint (bytes_remaining (IncreaseBudget delta_time_ms b))
                = sint (bytes_remaining b) + ?q"
    if neg: "sint (bytes_remaining b) < 0" and r: "0 \<le> sint (target_rate_kbps b)"
  proof -
    have "0 \<le> sint (target_rate_kbps b) * sint delta_time_ms" using r assms(1) by simp
    then have "0 \<le> ?q" by (simp add: signed_divide_int_def sgn_if pos_imp_zdiv_nonneg_iff)
    moreover have "- (2 ^ 31) \<le> sint (bytes_remaining b)"
      using sint_ge [of "bytes_remaining b"] by simp
    ultimately have "- (2 ^ 31) \<le> sint (bytes_remaining b) + ?q" by linarith
    with neg show ?thesis by (rule paid)
  qed
  have rate: "target_rate_kbps (IncreaseBudget delta_time_ms b) = target_rate_kbps b"
    by (simp add: IncreaseBudget_def Let_def)
  show ?thesis using reset paid paid0 rate by blast
qed

theorem IncreaseBudget_refill_witness:
  "0 \<le> sint (5 :: int32)
   \<and> - (2 ^ 31) \<le> sint (750 :: int32) * sint (5 :: int32)
   \<and> sint (750 :: int32) * sint (5 :: int32) < 2 ^ 31
   \<and> sint (bytes_remaining (IncreaseBudget 5 \<lparr>target_rate_kbps = 750, bytes_remaining = 200\<rparr>))
       = 468
   \<and> sint (bytes_remaining (IncreaseBudget 5 \<lparr>target_rate_kbps = 750, bytes_remaining = - 732\<rparr>))
       = - 264"
proof -
  have h: "0 \<le> sint (5 :: int32)" by simp
  have a: "- (2 ^ 31) \<le> sint (target_rate_kbps \<lparr>target_rate_kbps = 750, bytes_remaining = x\<rparr>)
             * sint (5 :: int32)" for x :: int32
    by simp
  have b: "sint (target_rate_kbps \<lparr>target_rate_kbps = 750, bytes_remaining = x\<rparr>)
             * sint (5 :: int32) < 2 ^ 31" for x :: int32
    by simp
  show ?thesis
    using IncreaseBudget_refill [OF h a b, of 200] IncreaseBudget_refill [OF h a b, of "- 732"]
    by simp
qed

text \<open>
  C2 as stated, for every budget and every \<open>delta_ms \<ge> 0\<close>, fails where the product
  leaves the range of \<open>int\<close>: an empty budget of rate 100000000 kbps refilled for 30 ms
  holds -161870912 bytes, and the quotient of the integers is 375000000.
\<close>

theorem IncreaseBudget_overflow_counterexample:
  "0 \<le> sint (30 :: int32)
   \<and> 0 \<le> sint (bytes_remaining \<lparr>target_rate_kbps = 100000000, bytes_remaining = 0\<rparr>)
   \<and> sint (bytes_remaining
             (IncreaseBudget 30 \<lparr>target_rate_kbps = 100000000, bytes_remaining = 0\<rparr>))
       = - 161870912
   \<and> (sint (100000000 :: int32) * sint (30 :: int32)) sdiv 8 = 375000000"
  by (simp add: IncreaseBudget_def int_div_def)

subsection \<open>Use\<close>

lemma sdiv_8_bounds:
  "8 * (k sdiv 8) \<le> k + 7" "k - 7 \<le> 8 * (k sdiv 8)"
  "k \<le> 0 \<Longrightarrow> k \<le> 8 * (k sdiv 8)" "k \<le> 0 \<Longrightarrow> k sdiv 8 \<le> 0"
  for k :: int
proof -
  have e: "k sdiv 8 = k div 8 + of_bool (k < 0 \<and> \<not> 8 dvd k)"
    by (auto simp: signed_divide_int_eq_divide_int sgn_if)
  show "8 * (k sdiv 8) \<le> k + 7" unfolding e by (cases "k < 0 \<and> \<not> 8 dvd k") (simp_all, presburger+)
  show "k - 7 \<le> 8 * (k sdiv 8)" unfolding e by (cases "k < 0 \<and> \<not> 8 dvd k") (simp_all, presburger+)
  show "k \<le> 0 \<Longrightarrow> k \<le> 8 * (k sdiv 8)"
    unfolding e by (cases "k < 0 \<and> \<not> 8 dvd k") (simp_all, presburger+)
  show "k \<le> 0 \<Longrightarrow> k sdiv 8 \<le> 0"
    unfolding e by (cases "k < 0 \<and> \<not> 8 dvd k") (simp_all, presburger+)
qed

lemma le_8_max: "k \<le> 8 * f \<Longrightarrow> k \<le> 8 * max d f" for k f d :: int
  by arith

lemma sint_std_max: "sint (std_max a b) = max (sint a) (sint b)"
  by (simp add: std_max_def max_def)

lemma sint_std_min: "sint (std_min a b) = min (sint a) (sint b)"
  by (simp add: std_min_def min_def)

lemma sint_minus_exact:
  fixes a b :: int32
  assumes "- (2 ^ 31) \<le> sint a - sint b" "sint a - sint b < 2 ^ 31"
  shows "sint (a - b) = sint a - sint b"
  using assms by (simp add: sint_word_ariths signed_take_bit_int_eq_self)

lemma sint_floor_exact:
  fixes rate :: int32
  assumes "- (2 ^ 31) \<le> - 100 * sint rate" "- 100 * sint rate < 2 ^ 31"
  shows "sint (int_div (- 100 * rate) 8) = (- 100 * sint rate) sdiv 8"
proof -
  have "sint (- 100 * rate) = signed_take_bit 31 (sint (- 100 :: int32) * sint rate)"
    by (simp only: sint_word_ariths) simp
  also have "\<dots> = - 100 * sint rate"
    using assms by (simp add: signed_take_bit_int_eq_self)
  finally show ?thesis by (simp add: sint_int_div_8)
qed

lemma sint_floor_ge:
  fixes rate :: int32
  assumes "0 \<le> sint rate"
  shows "- 100 * sint rate \<le> 8 * sint (int_div (- 100 * rate) 8)"
proof -
  let ?P = "- 100 * sint rate"
  let ?W = "sint (- 100 * rate)"
  have w: "?W = signed_take_bit 31 ?P"
    by (simp only: sint_word_ariths) simp
  have lo: "- (2 ^ 31) \<le> ?W" using sint_ge [of "- 100 * rate"] by simp
  have P0: "?P \<le> 0" using assms by simp
  have PW: "?P \<le> ?W"
  proof (cases "- (2 ^ 31) \<le> ?P")
    case True
    then have "signed_take_bit 31 ?P = ?P"
      using P0 by (intro signed_take_bit_int_eq_self) simp_all
    then show ?thesis by (simp only: w)
  next
    case False
    then show ?thesis using lo by linarith
  qed
  have "?P \<le> 8 * (?W sdiv 8)"
  proof (cases "?W \<le> 0")
    case True
    then have "?W \<le> 8 * (?W sdiv 8)" by (rule sdiv_8_bounds(3))
    with PW show ?thesis by linarith
  next
    case False
    have "?W - 7 \<le> 8 * (?W sdiv 8)" by (rule sdiv_8_bounds(2))
    moreover have "?P < - (2 ^ 31)"
    proof (rule ccontr)
      assume "\<not> ?P < - (2 ^ 31)"
      then have "signed_take_bit 31 ?P = ?P"
        using P0 by (intro signed_take_bit_int_eq_self) simp_all
      then have "?W = ?P" by (simp only: w)
      with P0 False show False by simp
    qed
    ultimately show ?thesis using False by simp
  qed
  then show ?thesis by (simp only: sint_int_div_8)
qed

lemma UseBudget_floor:
  assumes "0 \<le> sint (target_rate_kbps b)"
  shows "- 100 * sint (target_rate_kbps b) \<le> 8 * sint (bytes_remaining (UseBudget n b))"
proof -
  have "bytes_remaining (UseBudget n b)
          = std_max (bytes_remaining b - n) (int_div (- 100 * target_rate_kbps b) 8)"
    by (simp add: UseBudget_def)
  then have "sint (bytes_remaining (UseBudget n b))
          = max (sint (bytes_remaining b - n)) (sint (int_div (- 100 * target_rate_kbps b) 8))"
    by (simp only: sint_std_max)
  moreover have "- 100 * sint (target_rate_kbps b)
                   \<le> 8 * sint (int_div (- 100 * target_rate_kbps b) 8)"
    using assms by (rule sint_floor_ge)
  ultimately show ?thesis by (simp only: le_8_max)
qed

text \<open>
  C7, as amended. \<open>UseBudget n\<close> with \<open>n \<ge> 0\<close>. Where the difference
  \<open>bytes_remaining - n\<close> and the product \<open>-100 * target_rate_kbps\<close> are representable
  in an \<open>int\<close>, \<open>bytes_remaining\<close> is afterwards, as an integer, the maximum of
  \<open>bytes_remaining - n\<close> and \<open>-100 * target_rate_kbps / 8\<close> (the quotient truncated
  towards zero). For every target rate that is not negative, the budget is afterwards
  not further in debt than 100 ms of its target rate: \<open>8 * bytes_remaining \<ge> -100 * rate\<close>.
\<close>

theorem UseBudget_exact:
  assumes "0 \<le> sint n"
  shows "(- (2 ^ 31) \<le> sint (bytes_remaining b) - sint n
          \<and> - (2 ^ 31) \<le> - 100 * sint (target_rate_kbps b)
          \<and> - 100 * sint (target_rate_kbps b) < 2 ^ 31 \<longrightarrow>
          sint (bytes_remaining (UseBudget n b))
            = max (sint (bytes_remaining b) - sint n)
                  ((- 100 * sint (target_rate_kbps b)) sdiv 8))
       \<and> (0 \<le> sint (target_rate_kbps b) \<longrightarrow>
            - 100 * sint (target_rate_kbps b) \<le> 8 * sint (bytes_remaining (UseBudget n b)))
       \<and> target_rate_kbps (UseBudget n b) = target_rate_kbps b"
proof -
  have eq: "sint (bytes_remaining (UseBudget n b))
           = max (sint (bytes_remaining b) - sint n) ((- 100 * sint (target_rate_kbps b)) sdiv 8)"
    if lo: "- (2 ^ 31) \<le> sint (bytes_remaining b) - sint n"
      and f1: "- (2 ^ 31) \<le> - 100 * sint (target_rate_kbps b)"
      and f2: "- 100 * sint (target_rate_kbps b) < 2 ^ 31"
  proof -
    have "sint (bytes_remaining b) < 2 ^ 31" using sint_lt [of "bytes_remaining b"] by simp
    with assms have up: "sint (bytes_remaining b) - sint n < 2 ^ 31" by simp
    have d: "sint (bytes_remaining b - n) = sint (bytes_remaining b) - sint n"
      using lo up by (rule sint_minus_exact)
    have f: "sint (int_div (- 100 * target_rate_kbps b) 8)
               = (- 100 * sint (target_rate_kbps b)) sdiv 8"
      using f1 f2 by (rule sint_floor_exact)
    have "bytes_remaining (UseBudget n b)
            = std_max (bytes_remaining b - n) (int_div (- 100 * target_rate_kbps b) 8)"
      by (simp add: UseBudget_def)
    then show ?thesis by (simp only: sint_std_max d f)
  qed
  have fl: "- 100 * sint (target_rate_kbps b) \<le> 8 * sint (bytes_remaining (UseBudget n b))"
    if "0 \<le> sint (target_rate_kbps b)"
    using that by (rule UseBudget_floor)
  have rate: "target_rate_kbps (UseBudget n b) = target_rate_kbps b"
    by (simp add: UseBudget_def)
  show ?thesis using eq fl rate by blast
qed

theorem UseBudget_exact_witness:
  "0 \<le> sint (1200 :: int32)
   \<and> - (2 ^ 31) \<le> sint (468 :: int32) - sint (1200 :: int32)
   \<and> - (2 ^ 31) \<le> - 100 * sint (1 :: int32)
   \<and> - 100 * sint (1 :: int32) < 2 ^ 31
   \<and> sint (bytes_remaining (UseBudget 1200 \<lparr>target_rate_kbps = 750, bytes_remaining = 468\<rparr>))
       = - 732
   \<and> sint (bytes_remaining (UseBudget 1200 \<lparr>target_rate_kbps = 1, bytes_remaining = 468\<rparr>))
       = - 12
   \<and> - 100 * sint (1 :: int32)
       \<le> 8 * sint (bytes_remaining (UseBudget 1200 \<lparr>target_rate_kbps = 1, bytes_remaining = 468\<rparr>))"
proof -
  have h: "0 \<le> sint (1200 :: int32)" by simp
  show ?thesis
    using UseBudget_exact [OF h, of "\<lparr>target_rate_kbps = 750, bytes_remaining = 468\<rparr>"]
      UseBudget_exact [OF h, of "\<lparr>target_rate_kbps = 1, bytes_remaining = 468\<rparr>"]
    by simp
qed

text \<open>
  C7 as stated, for every budget and every \<open>n \<ge> 0\<close>, fails where the subtraction
  leaves the range of \<open>int\<close>: a budget of rate 1 at its floor of -12 bytes, used by
  2147483647 bytes, ends at 2147483637 bytes, and the maximum in exact integers is -12.
\<close>

theorem UseBudget_exact_counterexample:
  "0 \<le> sint (2147483647 :: int32)
   \<and> sint (bytes_remaining
             (UseBudget 2147483647 \<lparr>target_rate_kbps = 1, bytes_remaining = - 12\<rparr>))
       = 2147483637
   \<and> max (sint (- 12 :: int32) - sint (2147483647 :: int32)) ((- 100 * sint (1 :: int32)) sdiv 8)
       = - 12"
  by (simp add: UseBudget_def std_max_def int_div_def)

section \<open>Selection of the next packet\<close>

lemma packets_of_UpdateMediaBytesSent [simp]:
  "packets_of priority (UpdateMediaBytesSent clk n s) = packets_of priority s"
  by (cases priority) (simp_all add: UpdateMediaBytesSent_def Now_def)

lemma packets_of_packets_update:
  "packets_of priority (packets_update priority' f s)
     = (if priority = priority' then f (packets_of priority s) else packets_of priority s)"
  by (cases priority; cases priority') simp_all

lemma packets_of_Now [simp]: "packets_of priority (snd (Now clk s)) = packets_of priority s"
  by (cases priority) (simp_all add: Now_def)

lemma GetNextPacketFromList_Cons:
  assumes "packet_list (packets_of priority s) = packet # rest"
  shows "GetNextPacketFromList clk priority s =
           (Some \<lparr>np_ssrc = ssrc packet, np_sequence_number = sequence_number packet,
                   np_capture_time_ms = capture_time_ms packet, np_priority = priority,
                   np_last_packet =
                     (case rest of [] \<Rightarrow> True
                      | front # _ \<Rightarrow> sint (capture_time_ms packet) < sint (capture_time_ms front))\<rparr>,
            packets_update priority PacketList_pop_front
              (UpdateMediaBytesSent clk (bytes packet) s))"
  using assms
  by (simp add: GetNextPacketFromList_def Let_def packets_of_packets_update
      PacketList_pop_front_def)

lemma returned_head_GetNextPacketFromList:
  assumes "packet_list (packets_of priority s) \<noteq> []"
    and "packets_of priority s0 = packets_of priority s"
  shows "returned_head priority s0 (GetNextPacketFromList clk priority s)"
proof -
  obtain packet rest where l: "packet_list (packets_of priority s) = packet # rest"
    using assms(1) by (cases "packet_list (packets_of priority s)") auto
  show ?thesis
    by (simp add: returned_head_def GetNextPacketFromList_Cons [OF l] assms(2) l
        packets_of_packets_update PacketList_pop_front_def)
qed

lemma low_GetNextPacketFromList:
  "priority \<noteq> kLowPriority \<Longrightarrow>
   low_priority_packets (snd (GetNextPacketFromList clk priority s)) = low_priority_packets s"
  by (cases priority)
    (simp_all add: GetNextPacketFromList_def Let_def UpdateMediaBytesSent_def Now_def
      split: list.splits)

text \<open>
  C3. \<open>GetNextPacket\<close> with \<open>media.bytes_remaining \<le> 0\<close>. If more than 30 ms have passed
  since \<open>time_last_send\<close> at the reading of the clock the call takes, it returns (and
  pops) the head of the high list if that list is not empty, otherwise the head of the
  normal list if that one is not empty, otherwise nothing; if 30 ms or less have passed
  it returns nothing. It never returns a packet of low priority, and the low list is
  left as it is.
\<close>

theorem GetNextPacket_no_budget:
  assumes "sint (bytes_remaining (media_budget s)) \<le> 0"
  shows "(30 < sint (clk (clock_reads s) - time_last_send s) \<longrightarrow>
            (packet_list (high_priority_packets s) \<noteq> [] \<longrightarrow>
               returned_head kHighPriority s (GetNextPacket clk s))
          \<and> (packet_list (high_priority_packets s) = []
               \<and> packet_list (normal_priority_packets s) \<noteq> [] \<longrightarrow>
               returned_head kNormalPriority s (GetNextPacket clk s))
          \<and> (packet_list (high_priority_packets s) = []
               \<and> packet_list (normal_priority_packets s) = [] \<longrightarrow>
               fst (GetNextPacket clk s) = None))
       \<and> (sint (clk (clock_reads s) - time_last_send s) \<le> 30 \<longrightarrow>
            fst (GetNextPacket clk s) = None)
       \<and> (\<forall>p. fst (GetNextPacket clk s) = Some p \<longrightarrow> np_priority p \<noteq> kLowPriority)
       \<and> low_priority_packets (snd (GetNextPacket clk s)) = low_priority_packets s"
proof -
  let ?s1 = "snd (Now clk s)"
  have tls: "time_last_send ?s1 = time_last_send s" by (simp add: Now_def)
  have now: "fst (Now clk s) = clk (clock_reads s)" by (simp add: Now_def)
  have low1: "low_priority_packets ?s1 = low_priority_packets s" by (simp add: Now_def)
  have hi1: "high_priority_packets ?s1 = high_priority_packets s" by (simp add: Now_def)
  have no1: "normal_priority_packets ?s1 = normal_priority_packets s" by (simp add: Now_def)
  have g: "GetNextPacket clk s =
             (if 30 < sint (clk (clock_reads s) - time_last_send s) then
                if packet_list (high_priority_packets s) \<noteq> []
                then GetNextPacketFromList clk kHighPriority ?s1
                else if packet_list (normal_priority_packets s) \<noteq> []
                then GetNextPacketFromList clk kNormalPriority ?s1
                else (None, ?s1)
              else (None, ?s1))"
    using assms
    by (simp add: GetNextPacket_def Let_def split_beta now tls hi1 no1 PacketList_empty_def
        kMaxQueueTimeWithoutSendingMs_def)
  have high: "packet_list (high_priority_packets s) \<noteq> [] \<Longrightarrow>
      returned_head kHighPriority s (GetNextPacketFromList clk kHighPriority ?s1)"
    by (rule returned_head_GetNextPacketFromList) (simp_all add: hi1)
  have normal: "packet_list (normal_priority_packets s) \<noteq> [] \<Longrightarrow>
      returned_head kNormalPriority s (GetNextPacketFromList clk kNormalPriority ?s1)"
    by (rule returned_head_GetNextPacketFromList) (simp_all add: no1)
  have prio: "fst (GetNextPacketFromList clk priority ?s1) = Some p \<Longrightarrow> np_priority p = priority"
    for priority p
    by (auto simp: GetNextPacketFromList_def Let_def split: list.splits)
  have lowk: "priority \<noteq> kLowPriority \<Longrightarrow>
      low_priority_packets (snd (GetNextPacketFromList clk priority ?s1)) = low_priority_packets s"
    for priority
    by (simp add: low_GetNextPacketFromList low1)
  show ?thesis
    using high normal prio [of kHighPriority] prio [of kNormalPriority]
      lowk [of kHighPriority] lowk [of kNormalPriority]
    by (auto simp: g low1)
qed

theorem GetNextPacket_no_budget_witness:
  "sint (bytes_remaining (media_budget starved_pacer)) \<le> 0
   \<and> 30 < sint ((\<lambda>n. 40 :: int64) (clock_reads starved_pacer) - time_last_send starved_pacer)
   \<and> fst (GetNextPacket (\<lambda>n. 40) starved_pacer)
       = Some \<lparr>np_ssrc = 1, np_sequence_number = 7, np_capture_time_ms = 3,
                np_priority = kNormalPriority, np_last_packet = True\<rparr>
   \<and> packet_list (normal_priority_packets (snd (GetNextPacket (\<lambda>n. 40) starved_pacer))) = []
   \<and> fst (GetNextPacket (\<lambda>n. 30) starved_pacer) = None
   \<and> low_priority_packets (snd (GetNextPacket (\<lambda>n. 40) starved_pacer))
       = low_priority_packets starved_pacer"
proof -
  have h: "sint (bytes_remaining (media_budget starved_pacer)) \<le> 0"
    by (simp add: starved_pacer_def)
  have e: "30 < sint ((\<lambda>n. 40 :: int64) (clock_reads starved_pacer) - time_last_send starved_pacer)"
    by (simp add: starved_pacer_def)
  have v: "fst (GetNextPacket (\<lambda>n. 40) starved_pacer)
       = Some \<lparr>np_ssrc = 1, np_sequence_number = 7, np_capture_time_ms = 3,
                np_priority = kNormalPriority, np_last_packet = True\<rparr>"
    by (simp add: starved_pacer_def GetNextPacket_def GetNextPacketFromList_def Now_def
        UpdateMediaBytesSent_def PacketList_empty_def PacketList_pop_front_def
        kMaxQueueTimeWithoutSendingMs_def Let_def)
  show ?thesis
    using h e v GetNextPacket_no_budget [OF h, of "\<lambda>n. 40"]
      GetNextPacket_no_budget [OF h, of "\<lambda>n. 30"]
    by (simp add: returned_head_def starved_pacer_def split: list.splits option.splits)
qed

section \<open>Queue time\<close>

lemma sint_std_min64: "sint (std_min64 a b) = min (sint a) (sint b)"
  by (simp add: std_min64_def min_def)

lemma to_int_diff: "to_int (a - b) = word_of_int (sint a - sint b)"
proof -
  have d: "is_down (ucast :: int64 \<Rightarrow> int32)" by (simp add: is_down)
  have "a - b = word_of_int (sint a - sint b)" by simp
  then have "to_int (a - b) = ucast (word_of_int (sint a - sint b) :: int64)"
    by (simp only: to_int_def)
  also have "\<dots> = word_of_int (sint a - sint b)"
    using d by (rule ucast_down_wi)
  finally show ?thesis .
qed

lemma sint_word_of_int_32:
  assumes "- (2 ^ 31) \<le> k" "k < 2 ^ 31"
  shows "sint (word_of_int k :: int32) = k"
  using assms by (simp add: sint_sbintrunc' signed_take_bit_int_eq_self)

lemma QueueInMs_as_oldest:
  "fst (QueueInMs clk s)
     = to_int (clk (clock_reads s) - oldest_packet_capture_time (clk (clock_reads s)) s)"
  by (simp add: QueueInMs_def MillisecondTimestamp_def Now_def Let_def
      oldest_packet_capture_time_def cong: list.case_cong)

lemma sint_oldest_packet_capture_time:
  "sint (oldest_packet_capture_time now_ms s)
     = Min (insert (sint now_ms) (set (head_capture_times s)))"
proof -
  obtain hs ns ls where l:
    "packet_list (high_priority_packets s) = hs"
    "packet_list (normal_priority_packets s) = ns"
    "packet_list (low_priority_packets s) = ls"
    by simp
  show ?thesis
    by (cases hs; cases ns; cases ls)
      (simp_all add: oldest_packet_capture_time_def Let_def l head_capture_times_def
        sint_std_min64 min.commute min.left_commute)
qed

lemma QueueInMs_value:
  "fst (QueueInMs clk s)
     = word_of_int (sint (clk (clock_reads s))
         - Min (insert (sint (clk (clock_reads s))) (set (head_capture_times s))))"
  by (simp only: QueueInMs_as_oldest to_int_diff sint_oldest_packet_capture_time)

lemma nonneg_int32: "0 \<le> d \<Longrightarrow> - (2 ^ 31) \<le> d" for d :: int
  by simp

lemma Min_insert_le_self: "finite A \<Longrightarrow> Min (insert k A) \<le> k" for k :: int
  by simp

text \<open>
  C8, as amended. \<open>QueueInMs\<close> returns the clock value minus the least of that clock
  value and the capture times of the head packets of the lists that are not empty, converted to
  \<open>int\<close>: it is that difference itself whenever the difference is below \<open>2^31\<close>. It
  returns 0 when all three lists are empty.
\<close>

theorem QueueInMs_oldest_head:
  "fst (QueueInMs clk s)
     = word_of_int (sint (clk (clock_reads s))
         - Min (insert (sint (clk (clock_reads s))) (set (head_capture_times s))))
   \<and> (sint (clk (clock_reads s))
         - Min (insert (sint (clk (clock_reads s))) (set (head_capture_times s))) < 2 ^ 31 \<longrightarrow>
        sint (fst (QueueInMs clk s))
          = sint (clk (clock_reads s))
            - Min (insert (sint (clk (clock_reads s))) (set (head_capture_times s))))
   \<and> (packet_list (high_priority_packets s) = []
        \<and> packet_list (normal_priority_packets s) = []
        \<and> packet_list (low_priority_packets s) = [] \<longrightarrow>
        fst (QueueInMs clk s) = 0)"
proof -
  let ?now = "sint (clk (clock_reads s))"
  let ?d = "?now - Min (insert ?now (set (head_capture_times s)))"
  have v: "fst (QueueInMs clk s) = word_of_int ?d" by (rule QueueInMs_value)
  have "Min (insert ?now (set (head_capture_times s))) \<le> ?now"
    by (rule Min_insert_le_self) simp
  then have nn: "0 \<le> ?d" by simp
  have ex: "sint (fst (QueueInMs clk s)) = ?d" if "?d < 2 ^ 31"
  proof -
    have "- (2 ^ 31) \<le> ?d" using nn by (rule nonneg_int32)
    then have "sint (word_of_int ?d :: int32) = ?d" using that by (rule sint_word_of_int_32)
    then show ?thesis by (simp only: v)
  qed
  have em: "packet_list (high_priority_packets s) = []
        \<and> packet_list (normal_priority_packets s) = []
        \<and> packet_list (low_priority_packets s) = [] \<Longrightarrow> fst (QueueInMs clk s) = 0"
    unfolding v by (simp add: head_capture_times_def)
  show ?thesis using v ex em by blast
qed

theorem QueueInMs_oldest_head_witness:
  "sint ((\<lambda>n. 40 :: int64) (clock_reads starved_pacer))
     - Min (insert (sint ((\<lambda>n. 40 :: int64) (clock_reads starved_pacer)))
         (set (head_capture_times starved_pacer))) < 2 ^ 31
   \<and> sint (fst (QueueInMs (\<lambda>n. 40) starved_pacer)) = 38
   \<and> packet_list (high_priority_packets idle_pacer) = []
   \<and> packet_list (normal_priority_packets idle_pacer) = []
   \<and> packet_list (low_priority_packets idle_pacer) = []
   \<and> fst (QueueInMs (\<lambda>n. 40) idle_pacer) = 0"
proof -
  have h: "head_capture_times starved_pacer = [3, 2]"
    by (simp add: head_capture_times_def starved_pacer_def)
  have e: "packet_list (high_priority_packets idle_pacer) = []"
    "packet_list (normal_priority_packets idle_pacer) = []"
    "packet_list (low_priority_packets idle_pacer) = []"
    by (simp_all add: idle_pacer_def PacketList_new_def)
  have a: "sint ((\<lambda>n. 40 :: int64) (clock_reads starved_pacer))
     - Min (insert (sint ((\<lambda>n. 40 :: int64) (clock_reads starved_pacer)))
         (set (head_capture_times starved_pacer))) < 2 ^ 31"
    by (simp add: h)
  have "sint (fst (QueueInMs (\<lambda>n. 40) starved_pacer))
          = sint ((\<lambda>n. 40 :: int64) (clock_reads starved_pacer))
            - Min (insert (sint ((\<lambda>n. 40 :: int64) (clock_reads starved_pacer)))
                (set (head_capture_times starved_pacer)))"
    using QueueInMs_oldest_head [of "\<lambda>n. 40" starved_pacer] a by blast
  then have v: "sint (fst (QueueInMs (\<lambda>n. 40) starved_pacer)) = 38"
    by (simp add: h)
  have z: "fst (QueueInMs (\<lambda>n. 40) idle_pacer) = 0"
    using QueueInMs_oldest_head [of "\<lambda>n. 40" idle_pacer] e by blast
  show ?thesis using a v e z by blast
qed

text \<open>
  C8 as stated fails when a head packet's capture time is later than the clock: at
  time 1, with heads captured at 3 and 2, the claim gives \<open>1 - 2 = -1\<close> and
  \<open>QueueInMs\<close> returns 0.
\<close>

theorem QueueInMs_min_counterexample:
  "head_capture_times starved_pacer = [3, 2]
   \<and> sint ((\<lambda>n. 1 :: int64) (clock_reads starved_pacer))
       - Min (set (head_capture_times starved_pacer)) = - 1
   \<and> sint (fst (QueueInMs (\<lambda>n. 1) starved_pacer)) = 0"
proof -
  have h: "head_capture_times starved_pacer = [3, 2]"
    by (simp add: head_capture_times_def starved_pacer_def)
  have q: "fst (QueueInMs (\<lambda>n. 1) starved_pacer) = 0"
    by (simp add: QueueInMs_value h)
  show ?thesis by (simp add: h q)
qed

text \<open>
  C10, as amended. Where every head packet was captured less than \<open>2^31\<close> ms before
  the clock value, \<open>QueueInMs\<close> does not return a negative value: the clock value
  takes part in the minimum. In particular, when every head packet's capture time is
  at or after the clock value, the result is 0.
\<close>

theorem QueueInMs_not_negative:
  assumes "\<forall>c \<in> set (head_capture_times s). sint (clk (clock_reads s)) - c < 2 ^ 31"
  shows "0 \<le> sint (fst (QueueInMs clk s))
       \<and> ((\<forall>c \<in> set (head_capture_times s). sint (clk (clock_reads s)) \<le> c) \<longrightarrow>
            fst (QueueInMs clk s) = 0)"
proof -
  let ?now = "sint (clk (clock_reads s))"
  let ?A = "insert ?now (set (head_capture_times s))"
  have v: "fst (QueueInMs clk s) = word_of_int (?now - Min ?A)" by (rule QueueInMs_value)
  have fin: "finite ?A" and ne: "?A \<noteq> {}" by simp_all
  have le: "Min ?A \<le> ?now" by (rule Min_insert_le_self) simp
  have "Min ?A \<in> ?A" using fin ne by (rule Min_in)
  then have lt: "?now - Min ?A < 2 ^ 31" using assms by auto
  have "0 \<le> ?now - Min ?A" using le by simp
  then have "- (2 ^ 31) \<le> ?now - Min ?A" by (rule nonneg_int32)
  then have "sint (word_of_int (?now - Min ?A) :: int32) = ?now - Min ?A"
    using lt by (rule sint_word_of_int_32)
  then have nn: "0 \<le> sint (fst (QueueInMs clk s))" using le by (simp only: v)
  have z: "fst (QueueInMs clk s) = 0"
    if "\<forall>c \<in> set (head_capture_times s). ?now \<le> c"
  proof -
    have "?now \<le> a" if "a \<in> ?A" for a
      using that \<open>\<forall>c \<in> set (head_capture_times s). ?now \<le> c\<close> by auto
    then have "?now \<le> Min ?A" by (intro Min.boundedI fin ne)
    with le have "?now - Min ?A = 0" by linarith
    then show ?thesis by (simp only: v) simp
  qed
  show ?thesis using nn z by blast
qed

theorem QueueInMs_not_negative_witness:
  "head_capture_times starved_pacer = [3, 2]
   \<and> sint ((\<lambda>n. 40 :: int64) (clock_reads starved_pacer)) - 3 < 2 ^ 31
   \<and> sint ((\<lambda>n. 40 :: int64) (clock_reads starved_pacer)) - 2 < 2 ^ 31
   \<and> 0 \<le> sint (fst (QueueInMs (\<lambda>n. 40) starved_pacer))
   \<and> sint ((\<lambda>n. 1 :: int64) (clock_reads starved_pacer)) \<le> 3
   \<and> sint ((\<lambda>n. 1 :: int64) (clock_reads starved_pacer)) \<le> 2
   \<and> fst (QueueInMs (\<lambda>n. 1) starved_pacer) = 0"
proof -
  have h: "head_capture_times starved_pacer = [3, 2]"
    by (simp add: head_capture_times_def starved_pacer_def)
  have a: "\<forall>c \<in> set (head_capture_times starved_pacer).
       sint ((\<lambda>n. 40 :: int64) (clock_reads starved_pacer)) - c < 2 ^ 31"
    by (simp add: h)
  have b: "\<forall>c \<in> set (head_capture_times starved_pacer).
       sint ((\<lambda>n. 1 :: int64) (clock_reads starved_pacer)) - c < 2 ^ 31"
    by (simp add: h)
  have f: "\<forall>c \<in> set (head_capture_times starved_pacer).
       sint ((\<lambda>n. 1 :: int64) (clock_reads starved_pacer)) \<le> c"
    by (simp add: h)
  have n: "0 \<le> sint (fst (QueueInMs (\<lambda>n. 40) starved_pacer))"
    using QueueInMs_not_negative [OF a] by blast
  have z: "fst (QueueInMs (\<lambda>n. 1) starved_pacer) = 0"
    using QueueInMs_not_negative [OF b] f by blast
  show ?thesis using h n z by simp
qed

text \<open>
  C10 as stated fails when the oldest head packet was captured \<open>2^31\<close> ms or more
  before the clock value: the \<open>int64_t\<close> difference does not fit the \<open>int\<close> that is
  returned. At clock value 2147483651, with heads captured at 3 and 2, \<open>QueueInMs\<close>
  returns -2147483647.
\<close>

theorem QueueInMs_negative_counterexample:
  "head_capture_times starved_pacer = [3, 2]
   \<and> sint (fst (QueueInMs (\<lambda>n. 2147483651) starved_pacer)) = - 2147483647"
proof -
  have h: "head_capture_times starved_pacer = [3, 2]"
    by (simp add: head_capture_times_def starved_pacer_def)
  show ?thesis by (simp add: QueueInMs_value h)
qed

section \<open>Enqueueing\<close>

lemma SendPacket_enabled:
  assumes "enabled s"
  shows "SendPacket clk priority sid sn t n s =
     (let s1 = (if sint t < 0 then snd (Now clk s) else s) in
      if \<not> paused s \<and> PacketList_empty (packets_of priority s)
           \<and> 0 < sint (bytes_remaining (media_budget s))
      then (True, UpdateMediaBytesSent clk n s1)
      else (False,
        packets_update (queued_as s priority) (PacketList_push_back (packet_sent clk s sid sn t n))
          (if paused s \<and> priority = kNormalPriority
              \<and> sint (capture_time_ms_last_queued s)
                  < sint (capture_time_ms (packet_sent clk s sid sn t n))
           then s1\<lparr>capture_time_ms_last_queued := capture_time_ms (packet_sent clk s sid sn t n)\<rparr>
           else s1)))"
  using assms
  by (cases priority)
    (simp_all add: SendPacket_def MillisecondTimestamp_def Now_def Let_def packet_sent_def
      queued_as_def PacketList_empty_def)

lemma packets_of_snd_Now [simp]:
  "high_priority_packets (snd (Now clk s)) = high_priority_packets s"
  "normal_priority_packets (snd (Now clk s)) = normal_priority_packets s"
  "low_priority_packets (snd (Now clk s)) = low_priority_packets s"
  by (simp_all add: Now_def)

lemma packets_of_queued_update [simp]:
  "packets_of q (s\<lparr>capture_time_ms_last_queued := c\<rparr>) = packets_of q s"
  by (cases q) simp_all

lemma packets_of_if [simp]:
  "packets_of q (if c then a else b) = (if c then packets_of q a else packets_of q b)"
  by simp

text \<open>What \<open>SendPacket\<close> does to the three lists.\<close>

lemma SendPacket_lists:
  "packets_of q (snd (SendPacket clk priority sid sn t n s)) =
     (if fst (SendPacket clk priority sid sn t n s) \<or> q \<noteq> queued_as s priority
      then packets_of q s
      else PacketList_push_back (packet_sent clk s sid sn t n) (packets_of q s))"
proof (cases "enabled s")
  case False
  then show ?thesis by (simp add: SendPacket_def)
next
  case True
  show ?thesis
    by (simp add: SendPacket_enabled [OF True] Let_def packets_of_packets_update)
qed

lemma SendPacket_returns:
  "fst (SendPacket clk priority sid sn t n s)
     = (\<not> enabled s
        \<or> (\<not> paused s \<and> PacketList_empty (packets_of priority s)
            \<and> 0 < sint (bytes_remaining (media_budget s))))"
proof (cases "enabled s")
  case False
  then show ?thesis by (simp add: SendPacket_def)
next
  case True
  show ?thesis by (simp add: SendPacket_enabled [OF True] Let_def True)
qed




lemma sequence_number_packet_sent [simp]:
  "sequence_number (packet_sent clk s sid sn t n) = sn"
  by (simp add: packet_sent_def)

lemma paused_pacer_flags: "enabled paused_pacer" "paused paused_pacer"
  by (simp_all add: paused_pacer_def)


text \<open>
  C6. \<open>SendPacket\<close> on an enabled, paused pacer returns false; a packet of high
  priority is pushed onto the high list, a packet of normal or of low priority onto the
  normal list, and nothing else is queued. \<open>Process\<close> on a paused pacer calls no
  callback and leaves the three lists as they are.
\<close>

theorem SendPacket_paused:
  assumes "enabled s" and "paused s"
  shows "fst (SendPacket clk priority sid sn t n s) = False
    \<and> (priority = kHighPriority \<longrightarrow>
         high_priority_packets (snd (SendPacket clk priority sid sn t n s))
           = PacketList_push_back (packet_sent clk s sid sn t n) (high_priority_packets s)
         \<and> normal_priority_packets (snd (SendPacket clk priority sid sn t n s))
           = normal_priority_packets s)
    \<and> (priority = kNormalPriority \<or> priority = kLowPriority \<longrightarrow>
         normal_priority_packets (snd (SendPacket clk priority sid sn t n s))
           = PacketList_push_back (packet_sent clk s sid sn t n) (normal_priority_packets s)
         \<and> high_priority_packets (snd (SendPacket clk priority sid sn t n s))
           = high_priority_packets s)
    \<and> low_priority_packets (snd (SendPacket clk priority sid sn t n s))
         = low_priority_packets s
    \<and> snd (Process clk bytes_sent s) = []
    \<and> high_priority_packets (fst (Process clk bytes_sent s)) = high_priority_packets s
    \<and> normal_priority_packets (fst (Process clk bytes_sent s)) = normal_priority_packets s
    \<and> low_priority_packets (fst (Process clk bytes_sent s)) = low_priority_packets s"
proof -
  have p: "Process clk bytes_sent s
             = (s\<lparr>clock_reads := Suc (clock_reads s), time_last_update := clk (clock_reads s)\<rparr>, [])"
    using assms(2) by (simp add: Process_def Now_def Let_def)
  have f: "fst (SendPacket clk priority sid sn t n s) = False"
    using assms by (simp add: SendPacket_returns)
  have l: "packets_of q (snd (SendPacket clk priority sid sn t n s)) =
     (if q \<noteq> queued_as s priority then packets_of q s
      else PacketList_push_back (packet_sent clk s sid sn t n) (packets_of q s))" for q
    by (simp add: SendPacket_lists f)
  show ?thesis
    using f l [of kHighPriority] l [of kNormalPriority] l [of kLowPriority]
    by (cases priority) (simp_all add: p queued_as_def assms(2))
qed

theorem SendPacket_paused_witness:
  "enabled paused_pacer \<and> paused paused_pacer
   \<and> SendPacket (\<lambda>n. 20) kLowPriority 1 43 (- 1) 200 paused_pacer
       = (False,
          paused_pacer
            \<lparr>clock_reads := 1,
             normal_priority_packets :=
               \<lparr>packet_list =
                  [\<lparr>ssrc = 1, sequence_number = 42, capture_time_ms = 10, bytes = 1200\<rparr>,
                   \<lparr>ssrc = 1, sequence_number = 43, capture_time_ms = 20, bytes = 200\<rparr>],
                sequence_number_set = {42, 43}\<rparr>\<rparr>)
   \<and> snd (Process (\<lambda>n. 20) (\<lambda>n. n) paused_pacer) = []"
proof -
  have v: "SendPacket (\<lambda>n. 20) kLowPriority 1 43 (- 1) 200 paused_pacer
       = (False,
          paused_pacer
            \<lparr>clock_reads := 1,
             normal_priority_packets :=
               \<lparr>packet_list =
                  [\<lparr>ssrc = 1, sequence_number = 42, capture_time_ms = 10, bytes = 1200\<rparr>,
                   \<lparr>ssrc = 1, sequence_number = 43, capture_time_ms = 20, bytes = 200\<rparr>],
                sequence_number_set = {42, 43}\<rparr>\<rparr>)"
    by (simp add: SendPacket_def paused_pacer_def PacketList_push_back_def PacketList_new_def
        MillisecondTimestamp_def Now_def Let_def insert_commute)
  show ?thesis
    using v paused_pacer_flags
      SendPacket_paused [OF paused_pacer_flags, of "\<lambda>n. 20" kLowPriority 1 43 "- 1" 200 "\<lambda>n. n"]
    by simp
qed

section \<open>Process\<close>

lemma Process_loop_None:
  "fst (GetNextPacket clk s) = None \<Longrightarrow> Process_loop clk s = (snd (GetNextPacket clk s), [])"
  by (subst Process_loop.simps) (simp add: split_beta)

lemma Process_loop_Some:
  "fst (GetNextPacket clk s) = Some p \<Longrightarrow>
   Process_loop clk s =
     (fst (Process_loop clk (note_sent p (snd (GetNextPacket clk s)))),
      TimeToSendPacket (np_ssrc p) (np_sequence_number p) (np_capture_time_ms p)
        # snd (Process_loop clk (note_sent p (snd (GetNextPacket clk s)))))"
  by (subst Process_loop.simps) (simp add: split_beta)

text \<open>Induction along the iterations of the loop.\<close>

lemma Process_loop_induct [case_names step]:
  assumes "\<And>s. (\<And>p. fst (GetNextPacket clk s) = Some p \<Longrightarrow>
                      P (note_sent p (snd (GetNextPacket clk s)))) \<Longrightarrow> P s"
  shows "P s"
proof -
  have "c = clk \<Longrightarrow> P s" for c
  proof (induction c s rule: Process_loop.induct)
    case (1 c s)
    show ?case
    proof (rule assms)
      fix p
      assume "fst (GetNextPacket clk s) = Some p"
      then show "P (note_sent p (snd (GetNextPacket clk s)))"
        using "1.prems"
        by (intro "1.IH" [of "Some p" "snd (GetNextPacket clk s)" p]) (simp_all add: prod_eq_iff)
    qed
  qed
  then show ?thesis by simp
qed

lemma Process_loop_no_padding:
  "\<forall>c \<in> set (snd (Process_loop clk s)). \<not> is_padding_call c"
proof (induction s rule: Process_loop_induct [where clk = clk])
  case (step s)
  show ?case
  proof (cases "fst (GetNextPacket clk s)")
    case None
    then show ?thesis by (simp add: Process_loop_None)
  next
    case (Some p)
    then show ?thesis using step [OF Some] by (simp add: Process_loop_Some [OF Some])
  qed
qed

lemma Process_unfold:
  "Process clk bytes_sent s =
     (if \<not> paused s \<and> 0 < sint (Process_elapsed clk s) then
        (fst (Process_padding bytes_sent (fst (Process_loop clk (Process_refilled clk s)))),
         snd (Process_loop clk (Process_refilled clk s))
           @ snd (Process_padding bytes_sent (fst (Process_loop clk (Process_refilled clk s)))))
      else (s\<lparr>clock_reads := Suc (clock_reads s), time_last_update := clk (clock_reads s)\<rparr>, []))"
  by (simp add: Process_def Now_def Let_def split_beta Process_elapsed_def Process_refilled_def)

text \<open>
  C5. In a run of \<open>Process\<close> that is not paused and sees a positive elapsed time,
  \<open>TimeToSendPadding\<close> is called exactly when, in the state in which the loop exits,
  all three lists are empty and the padding budget and the pad-up-to budget are both
  positive. It is then called once, after the packets, for the lesser of the two
  budgets, and the number of bytes it returns is used from the media, the padding and
  the pad-up-to budget.
\<close>

theorem Process_padding_call:
  assumes "\<not> paused s" and "0 < sint (Process_elapsed clk s)"
  shows
    "let s3 = fst (Process_loop clk (Process_refilled clk s));
         idle = (PacketList_empty (high_priority_packets s3)
                 \<and> PacketList_empty (normal_priority_packets s3)
                 \<and> PacketList_empty (low_priority_packets s3)
                 \<and> 0 < sint (bytes_remaining (padding_budget s3))
                 \<and> 0 < sint (bytes_remaining (pad_up_to_bitrate_budget s3)));
         padding_needed = std_min (bytes_remaining (padding_budget s3))
                                  (bytes_remaining (pad_up_to_bitrate_budget s3));
         s4 = fst (Process clk bytes_sent s);
         calls = snd (Process clk bytes_sent s)
     in ((\<exists>c \<in> set calls. is_padding_call c) \<longleftrightarrow> idle)
      \<and> (idle \<longrightarrow>
           calls = snd (Process_loop clk (Process_refilled clk s))
                     @ [TimeToSendPadding padding_needed]
           \<and> sint padding_needed
               = min (sint (bytes_remaining (padding_budget s3)))
                     (sint (bytes_remaining (pad_up_to_bitrate_budget s3)))
           \<and> media_budget s4 = UseBudget (bytes_sent padding_needed) (media_budget s3)
           \<and> padding_budget s4 = UseBudget (bytes_sent padding_needed) (padding_budget s3)
           \<and> pad_up_to_bitrate_budget s4
               = UseBudget (bytes_sent padding_needed) (pad_up_to_bitrate_budget s3))
      \<and> (\<not> idle \<longrightarrow> s4 = s3)"
proof -
  have np: "\<forall>c \<in> set (snd (Process_loop clk (Process_refilled clk s))). \<not> is_padding_call c"
    by (rule Process_loop_no_padding)
  have p: "Process clk bytes_sent s =
        (fst (Process_padding bytes_sent (fst (Process_loop clk (Process_refilled clk s)))),
         snd (Process_loop clk (Process_refilled clk s))
           @ snd (Process_padding bytes_sent (fst (Process_loop clk (Process_refilled clk s)))))"
    using assms by (simp add: Process_unfold)
  show ?thesis
    using np by (auto simp: p Let_def Process_padding_def sint_std_min)
qed

lemma idle_pacer_refilled:
  "Process_refilled (\<lambda>n. 5) (SetStatus True idle_pacer) = idle_refilled"
  by (simp add: Process_refilled_def Process_elapsed_def SetStatus_def idle_pacer_def
      idle_refilled_def UpdateBytesPerInterval_def IncreaseBudget_def int_div_def std_min_def
      to_int_def kMaxIntervalTimeMs_def)

lemma idle_refilled_loop: "Process_loop (\<lambda>n. 5) idle_refilled = (idle_refilled, [])"
proof -
  have "GetNextPacket (\<lambda>n. 5) idle_refilled = (None, idle_refilled)"
    by (simp add: GetNextPacket_def idle_refilled_def PacketList_empty_def PacketList_new_def)
  then show ?thesis by (simp add: Process_loop_None)
qed

theorem Process_padding_call_witness:
  "\<not> paused (SetStatus True idle_pacer)
   \<and> 0 < sint (Process_elapsed (\<lambda>n. 5) (SetStatus True idle_pacer))
   \<and> snd (Process (\<lambda>n. 5) (\<lambda>n. n) (SetStatus True idle_pacer)) = [TimeToSendPadding 312]
   \<and> media_budget (fst (Process (\<lambda>n. 5) (\<lambda>n. n) (SetStatus True idle_pacer)))
       = \<lparr>target_rate_kbps = 300, bytes_remaining = - 125\<rparr>
   \<and> padding_budget (fst (Process (\<lambda>n. 5) (\<lambda>n. n) (SetStatus True idle_pacer)))
       = \<lparr>target_rate_kbps = 800, bytes_remaining = 188\<rparr>
   \<and> pad_up_to_bitrate_budget (fst (Process (\<lambda>n. 5) (\<lambda>n. n) (SetStatus True idle_pacer)))
       = \<lparr>target_rate_kbps = 500, bytes_remaining = 0\<rparr>"
proof -
  have a: "\<not> paused (SetStatus True idle_pacer)"
    by (simp add: SetStatus_def idle_pacer_def)
  have b: "0 < sint (Process_elapsed (\<lambda>n. 5) (SetStatus True idle_pacer))"
    by (simp add: Process_elapsed_def SetStatus_def idle_pacer_def to_int_def)
  have i: "PacketList_empty (high_priority_packets idle_refilled)
           \<and> PacketList_empty (normal_priority_packets idle_refilled)
           \<and> PacketList_empty (low_priority_packets idle_refilled)
           \<and> 0 < sint (bytes_remaining (padding_budget idle_refilled))
           \<and> 0 < sint (bytes_remaining (pad_up_to_bitrate_budget idle_refilled))"
    by (simp add: idle_refilled_def PacketList_empty_def PacketList_new_def)
  have n: "std_min (bytes_remaining (padding_budget idle_refilled))
             (bytes_remaining (pad_up_to_bitrate_budget idle_refilled)) = 312"
    by (simp add: idle_refilled_def std_min_def)
  have u: "UseBudget 312 (media_budget idle_refilled)
             = \<lparr>target_rate_kbps = 300, bytes_remaining = - 125\<rparr>"
    "UseBudget 312 (padding_budget idle_refilled)
             = \<lparr>target_rate_kbps = 800, bytes_remaining = 188\<rparr>"
    "UseBudget 312 (pad_up_to_bitrate_budget idle_refilled)
             = \<lparr>target_rate_kbps = 500, bytes_remaining = 0\<rparr>"
    by (simp_all add: idle_refilled_def UseBudget_def std_max_def int_div_def)
  show ?thesis
    using a b i Process_padding_call [OF a b, of "\<lambda>n. n"]
    by (simp add: Let_def idle_pacer_refilled idle_refilled_loop n u)
qed

section \<open>Process does not read the enabled flag\<close>

lemma packets_update_enabled:
  "packets_update q f (s\<lparr>enabled := e\<rparr>) = (packets_update q f s)\<lparr>enabled := e\<rparr>"
  by (cases q) simp_all

lemma packets_of_enabled [simp]: "packets_of q (s\<lparr>enabled := e\<rparr>) = packets_of q s"
  by (cases q) simp_all

lemma UpdateMediaBytesSent_enabled:
  "UpdateMediaBytesSent clk n (s\<lparr>enabled := e\<rparr>) = (UpdateMediaBytesSent clk n s)\<lparr>enabled := e\<rparr>"
  by (simp add: UpdateMediaBytesSent_def Now_def)

lemma GetNextPacketFromList_enabled:
  "GetNextPacketFromList clk q (s\<lparr>enabled := e\<rparr>)
     = (fst (GetNextPacketFromList clk q s), (snd (GetNextPacketFromList clk q s))\<lparr>enabled := e\<rparr>)"
  by (cases "packet_list (packets_of q s)")
    (simp_all add: GetNextPacketFromList_def Let_def UpdateMediaBytesSent_enabled
      packets_update_enabled)

lemma GetNextPacket_enabled:
  "GetNextPacket clk (s\<lparr>enabled := e\<rparr>)
     = (fst (GetNextPacket clk s), (snd (GetNextPacket clk s))\<lparr>enabled := e\<rparr>)"
proof -
  have n: "snd (Now clk (s\<lparr>enabled := e\<rparr>)) = (snd (Now clk s))\<lparr>enabled := e\<rparr>"
    "fst (Now clk (s\<lparr>enabled := e\<rparr>)) = fst (Now clk s)"
    by (simp_all add: Now_def)
  have f: "time_last_send ((snd (Now clk s))\<lparr>enabled := e\<rparr>) = time_last_send (snd (Now clk s))"
    by simp
  show ?thesis
    by (simp add: GetNextPacket_def Let_def split_beta n GetNextPacketFromList_enabled)
qed

lemma note_sent_enabled: "note_sent p (s\<lparr>enabled := e\<rparr>) = (note_sent p s)\<lparr>enabled := e\<rparr>"
  by (simp add: note_sent_def)

lemma Process_loop_enabled:
  "Process_loop clk (s\<lparr>enabled := e\<rparr>)
     = ((fst (Process_loop clk s))\<lparr>enabled := e\<rparr>, snd (Process_loop clk s))"
proof (induction s rule: Process_loop_induct [where clk = clk])
  case (step s)
  have g: "fst (GetNextPacket clk (s\<lparr>enabled := e\<rparr>)) = fst (GetNextPacket clk s)"
    "snd (GetNextPacket clk (s\<lparr>enabled := e\<rparr>)) = (snd (GetNextPacket clk s))\<lparr>enabled := e\<rparr>"
    by (simp_all add: GetNextPacket_enabled)
  show ?case
  proof (cases "fst (GetNextPacket clk s)")
    case None
    then show ?thesis by (simp add: Process_loop_None g)
  next
    case (Some p)
    have "fst (GetNextPacket clk (s\<lparr>enabled := e\<rparr>)) = Some p" using Some by (simp add: g)
    then show ?thesis
      using step [OF Some]
      by (simp add: Process_loop_Some [OF Some] Process_loop_Some g note_sent_enabled)
  qed
qed

lemma Process_calls_enabled:
  "snd (Process clk bytes_sent (s\<lparr>enabled := e\<rparr>)) = snd (Process clk bytes_sent s)"
proof -
  have r: "Process_refilled clk (s\<lparr>enabled := e\<rparr>) = (Process_refilled clk s)\<lparr>enabled := e\<rparr>"
    by (simp add: Process_refilled_def Process_elapsed_def UpdateBytesPerInterval_def)
  have el: "Process_elapsed clk (s\<lparr>enabled := e\<rparr>) = Process_elapsed clk s"
    by (simp add: Process_elapsed_def)
  have pd: "snd (Process_padding bytes_sent (s'\<lparr>enabled := e\<rparr>))
              = snd (Process_padding bytes_sent s')" for s'
    by (simp add: Process_padding_def Let_def)
  show ?thesis
    by (simp add: Process_unfold r el Process_loop_enabled pd)
qed

text \<open>
  C1, as amended. In a state with \<open>enabled\<close> false every \<open>SendPacket\<close> returns true and
  queues nothing. \<open>Process\<close> does not read \<open>enabled\<close>: from such a state it makes the
  calls of the sender callback that it makes from the same state with \<open>enabled\<close> true,
  and it makes no call when the pacer is paused or the elapsed time is not positive.
\<close>

theorem disabled_bypass:
  assumes "\<not> enabled s"
  shows "fst (SendPacket clk priority sid sn t n s) = True
       \<and> (\<forall>q. packets_of q (snd (SendPacket clk priority sid sn t n s)) = packets_of q s)
       \<and> snd (Process clk bytes_sent s) = snd (Process clk bytes_sent (SetStatus True s))
       \<and> (paused s \<or> sint (Process_elapsed clk s) \<le> 0 \<longrightarrow> snd (Process clk bytes_sent s) = [])"
proof -
  have r: "fst (SendPacket clk priority sid sn t n s) = True"
    using assms by (simp add: SendPacket_returns)
  have l: "packets_of q (snd (SendPacket clk priority sid sn t n s)) = packets_of q s" for q
    using r by (simp add: SendPacket_lists)
  have p: "snd (Process clk bytes_sent s) = snd (Process clk bytes_sent (SetStatus True s))"
    by (simp add: SetStatus_def Process_calls_enabled)
  have q: "paused s \<or> sint (Process_elapsed clk s) \<le> 0 \<Longrightarrow> snd (Process clk bytes_sent s) = []"
    by (auto simp: Process_unfold)
  show ?thesis using r l p q by blast
qed

theorem disabled_bypass_witness:
  "\<not> enabled idle_pacer
   \<and> SendPacket (\<lambda>n. 7) kNormalPriority 1 1 0 1200 idle_pacer
       = (True, idle_pacer
           \<lparr>clock_reads := 1, time_last_send := 7,
            media_budget := \<lparr>target_rate_kbps = 300, bytes_remaining = - 1013\<rparr>,
            pad_up_to_bitrate_budget := \<lparr>target_rate_kbps = 500, bytes_remaining = - 1200\<rparr>\<rparr>)
   \<and> snd (Process (\<lambda>n. 5) (\<lambda>n. n) idle_pacer)
       = snd (Process (\<lambda>n. 5) (\<lambda>n. n) (SetStatus True idle_pacer))
   \<and> sint (Process_elapsed (\<lambda>n. 0) idle_pacer) \<le> 0
   \<and> snd (Process (\<lambda>n. 0) (\<lambda>n. n) idle_pacer) = []"
proof -
  have d: "\<not> enabled idle_pacer" by (simp add: idle_pacer_def)
  have v: "SendPacket (\<lambda>n. 7) kNormalPriority 1 1 0 1200 idle_pacer
       = (True, idle_pacer
           \<lparr>clock_reads := 1, time_last_send := 7,
            media_budget := \<lparr>target_rate_kbps = 300, bytes_remaining = - 1013\<rparr>,
            pad_up_to_bitrate_budget := \<lparr>target_rate_kbps = 500, bytes_remaining = - 1200\<rparr>\<rparr>)"
    by (simp add: SendPacket_def idle_pacer_def UpdateMediaBytesSent_def Now_def UseBudget_def
        std_max_def int_div_def)
  have e: "sint (Process_elapsed (\<lambda>n. 0) idle_pacer) \<le> 0"
    by (simp add: Process_elapsed_def idle_pacer_def to_int_def)
  have p: "snd (Process (\<lambda>n. 5) (\<lambda>n. n) idle_pacer)
       = snd (Process (\<lambda>n. 5) (\<lambda>n. n) (SetStatus True idle_pacer))"
    using disabled_bypass [OF d, of "\<lambda>n. 5" kNormalPriority 1 1 0 1200 "\<lambda>n. n"] by blast
  have z: "snd (Process (\<lambda>n. 0) (\<lambda>n. n) idle_pacer) = []"
    using disabled_bypass [OF d, of "\<lambda>n. 0" kNormalPriority 1 1 0 1200 "\<lambda>n. n"] e by blast
  show ?thesis using d v p e z by blast
qed

text \<open>
  C1 as stated fails: \<open>Process\<close> on a pacer that is not enabled asks for padding when
  nothing is queued and the padding budgets are positive, and sends a queued packet
  as it does when enabled.
\<close>

theorem disabled_Process_counterexample:
  "\<not> enabled idle_pacer
   \<and> snd (Process (\<lambda>n. 5) (\<lambda>n. n) idle_pacer) = [TimeToSendPadding 312]
   \<and> \<not> enabled (SetStatus False starved_pacer)
   \<and> snd (Process (\<lambda>n. 40) (\<lambda>n. n) (SetStatus False starved_pacer))
       = [TimeToSendPacket 1 7 3]"
proof -
  have a: "snd (Process (\<lambda>n. 5) (\<lambda>n. n) idle_pacer) = [TimeToSendPadding 312]"
    by code_simp
  have b: "snd (Process (\<lambda>n. 40) (\<lambda>n. n) (SetStatus False starved_pacer))
       = [TimeToSendPacket 1 7 3]"
    by code_simp
  show ?thesis using a b by (simp add: idle_pacer_def SetStatus_def)
qed

section \<open>The loop of Process without media budget\<close>

lemma UseBudget_not_positive:
  assumes "sint (bytes_remaining b) \<le> 0" and "0 \<le> sint n"
    and "- (2 ^ 31) \<le> sint (bytes_remaining b) - sint n"
    and "0 \<le> sint (target_rate_kbps b)" and "sint (target_rate_kbps b) \<le> 21474836"
  shows "sint (bytes_remaining (UseBudget n b)) \<le> 0"
proof -
  have "sint (bytes_remaining b) - sint n < 2 ^ 31" using assms(1,2) by simp
  with assms(3) have d: "sint (bytes_remaining b - n) = sint (bytes_remaining b) - sint n"
    by (rule sint_minus_exact)
  have "- (2 ^ 31) \<le> - 100 * sint (target_rate_kbps b)" using assms(5) by simp
  moreover have "- 100 * sint (target_rate_kbps b) < 2 ^ 31" using assms(4) by simp
  ultimately have f: "sint (int_div (- 100 * target_rate_kbps b) 8)
                        = (- 100 * sint (target_rate_kbps b)) sdiv 8"
    by (rule sint_floor_exact)
  have "- 100 * sint (target_rate_kbps b) \<le> 0" using assms(4) by simp
  then have "(- 100 * sint (target_rate_kbps b)) sdiv 8 \<le> 0" by (rule sdiv_8_bounds(4))
  then have "max (sint (bytes_remaining b) - sint n) ((- 100 * sint (target_rate_kbps b)) sdiv 8) \<le> 0"
    using assms(1,2) by simp
  moreover have "bytes_remaining (UseBudget n b)
            = std_max (bytes_remaining b - n) (int_div (- 100 * target_rate_kbps b) 8)"
    by (simp add: UseBudget_def)
  ultimately show ?thesis by (simp only: sint_std_max d f)
qed

lemma GetNextPacket_starved_None:
  assumes "sint (bytes_remaining (media_budget s)) \<le> 0"
    and "sint (clk (clock_reads s) - time_last_send s) \<le> 30"
  shows "fst (GetNextPacket clk s) = None"
  using assms by (simp add: GetNextPacket_def Now_def kMaxQueueTimeWithoutSendingMs_def)

text \<open>
  Where a call without media budget returns a packet, it is the head of the high or of
  the normal list; the state it leaves has the clock read twice, the second reading as
  the time of the last send, and the media budget used by the size of the packet.
\<close>

lemma GetNextPacketFromList_state:
  assumes "packet_list (packets_of q s) = packet # rest"
  shows "media_budget (snd (GetNextPacketFromList clk q s))
           = UseBudget (bytes packet) (media_budget s)
       \<and> time_last_send (snd (GetNextPacketFromList clk q s)) = clk (clock_reads s)
       \<and> clock_reads (snd (GetNextPacketFromList clk q s)) = Suc (clock_reads s)"
  using assms
  by (cases q) (simp_all add: GetNextPacketFromList_def Let_def UpdateMediaBytesSent_def Now_def)

lemma GetNextPacket_starved_Some:
  assumes "sint (bytes_remaining (media_budget s)) \<le> 0"
    and "fst (GetNextPacket clk s) = Some p"
  shows "\<exists>packet \<in> set (packet_list (high_priority_packets s))
                    \<union> set (packet_list (normal_priority_packets s)).
           media_budget (snd (GetNextPacket clk s)) = UseBudget (bytes packet) (media_budget s)
           \<and> time_last_send (snd (GetNextPacket clk s)) = clk (Suc (clock_reads s))
           \<and> clock_reads (snd (GetNextPacket clk s)) = Suc (Suc (clock_reads s))"
proof -
  let ?s1 = "snd (Now clk s)"
  have s1: "media_budget ?s1 = media_budget s" "clock_reads ?s1 = Suc (clock_reads s)"
    by (simp_all add: Now_def)
  have from_list: "\<exists>packet \<in> set (packet_list (packets_of q s)).
           media_budget (snd (GetNextPacketFromList clk q ?s1))
             = UseBudget (bytes packet) (media_budget s)
           \<and> time_last_send (snd (GetNextPacketFromList clk q ?s1)) = clk (Suc (clock_reads s))
           \<and> clock_reads (snd (GetNextPacketFromList clk q ?s1)) = Suc (Suc (clock_reads s))"
    if ne: "packet_list (packets_of q s) \<noteq> []" for q
  proof -
    obtain packet rest where l: "packet_list (packets_of q ?s1) = packet # rest"
      using ne by (cases "packet_list (packets_of q s)") auto
    then have "packet \<in> set (packet_list (packets_of q s))" by simp
    then show ?thesis using GetNextPacketFromList_state [OF l, of clk] by (auto simp: s1)
  qed
  from assms consider
      "packet_list (high_priority_packets s) \<noteq> []"
        "GetNextPacket clk s = GetNextPacketFromList clk kHighPriority ?s1"
    | "packet_list (normal_priority_packets s) \<noteq> []"
        "GetNextPacket clk s = GetNextPacketFromList clk kNormalPriority ?s1"
    by (auto simp: GetNextPacket_def Let_def split_beta PacketList_empty_def split: if_splits)
  then show ?thesis
  proof cases
    case 1
    then show ?thesis using from_list [of kHighPriority] by auto
  next
    case 2
    then show ?thesis using from_list [of kNormalPriority] by auto
  qed
qed

lemma note_sent_fields [simp]:
  "media_budget (note_sent p s) = media_budget s"
  "time_last_send (note_sent p s) = time_last_send s"
  "clock_reads (note_sent p s) = clock_reads s"
  by (simp_all add: note_sent_def)

text \<open>
  C9, as amended. The loop of \<open>Process\<close> starts with \<open>media.bytes_remaining \<le> 0\<close>; every
  queued packet has a size that is not negative and that the media budget can be
  debited by without leaving the range of \<open>int\<close>; the media target rate is between 0 and
  21474836 kbps; and the clock advances by at most 30 ms between the reading taken when
  a packet is popped, which becomes \<open>time_last_send\<close>, and the next reading, which the
  next selection takes. Then \<open>TimeToSendPacket\<close> is called at most once in that loop.
\<close>

theorem Process_loop_starved:
  assumes "sint (bytes_remaining (media_budget s)) \<le> 0"
    and "\<forall>packet \<in> set (packet_list (high_priority_packets s))
                      \<union> set (packet_list (normal_priority_packets s))
                      \<union> set (packet_list (low_priority_packets s)).
           0 \<le> sint (bytes packet)
           \<and> - (2 ^ 31) \<le> sint (bytes_remaining (media_budget s)) - sint (bytes packet)"
    and "0 \<le> sint (target_rate_kbps (media_budget s))"
    and "sint (target_rate_kbps (media_budget s)) \<le> 21474836"
    and "sint (clk (Suc (Suc (clock_reads s))) - clk (Suc (clock_reads s))) \<le> 30"
  shows "length (snd (Process_loop clk s)) \<le> 1"
proof (cases "fst (GetNextPacket clk s)")
  case None
  then show ?thesis by (simp add: Process_loop_None)
next
  case (Some p)
  let ?s2 = "note_sent p (snd (GetNextPacket clk s))"
  obtain packet where
    pk: "packet \<in> set (packet_list (high_priority_packets s))
                  \<union> set (packet_list (normal_priority_packets s))"
    and m: "media_budget (snd (GetNextPacket clk s)) = UseBudget (bytes packet) (media_budget s)"
    and t: "time_last_send (snd (GetNextPacket clk s)) = clk (Suc (clock_reads s))"
    and c: "clock_reads (snd (GetNextPacket clk s)) = Suc (Suc (clock_reads s))"
    using GetNextPacket_starved_Some [OF assms(1) Some] by blast
  have size: "0 \<le> sint (bytes packet)"
    "- (2 ^ 31) \<le> sint (bytes_remaining (media_budget s)) - sint (bytes packet)"
    using assms(2) pk by auto
  have "sint (bytes_remaining (UseBudget (bytes packet) (media_budget s))) \<le> 0"
    using assms(1) size assms(3,4) by (rule UseBudget_not_positive)
  then have m2: "sint (bytes_remaining (media_budget ?s2)) \<le> 0" by (simp add: m)
  have "sint (clk (clock_reads ?s2) - time_last_send ?s2) \<le> 30"
    using assms(5) by (simp add: t c)
  with m2 have "fst (GetNextPacket clk ?s2) = None" by (rule GetNextPacket_starved_None)
  then have "snd (Process_loop clk ?s2) = []" by (simp add: Process_loop_None)
  then show ?thesis by (simp add: Process_loop_Some [OF Some])
qed

lemma starved_two_fields:
  "media_budget starved_two = \<lparr>target_rate_kbps = 100, bytes_remaining = - 1125\<rparr>"
  "packet_list (high_priority_packets starved_two) = []"
  "map (\<lambda>packet. sint (bytes packet)) (packet_list (normal_priority_packets starved_two))
     = [1500, 1500]"
  "map (\<lambda>packet. sint (bytes packet)) (packet_list (low_priority_packets starved_two)) = [200]"
  "clock_reads starved_two = 0"
  by (simp_all add: starved_two_def starved_pacer_def)

theorem Process_loop_starved_witness:
  "sint (bytes_remaining (media_budget starved_two)) \<le> 0
   \<and> map (\<lambda>packet. sint (bytes packet))
         (packet_list (high_priority_packets starved_two)
          @ packet_list (normal_priority_packets starved_two)
          @ packet_list (low_priority_packets starved_two)) = [1500, 1500, 200]
   \<and> sint (target_rate_kbps (media_budget starved_two)) = 100
   \<and> sint ((\<lambda>n. 40 + of_nat n :: int64) (Suc (Suc (clock_reads starved_two)))
            - (\<lambda>n. 40 + of_nat n) (Suc (clock_reads starved_two))) \<le> 30
   \<and> length (snd (Process_loop (\<lambda>n. 40 + of_nat n) starved_two)) \<le> 1
   \<and> snd (Process_loop (\<lambda>n. 40 + of_nat n) starved_two) = [TimeToSendPacket 1 7 3]"
proof -
  have a: "sint (bytes_remaining (media_budget starved_two)) \<le> 0"
    by (simp add: starved_two_fields)
  have sizes: "map (\<lambda>packet. sint (bytes packet))
         (packet_list (high_priority_packets starved_two)
          @ packet_list (normal_priority_packets starved_two)
          @ packet_list (low_priority_packets starved_two)) = [1500, 1500, 200]"
    by (simp add: starved_two_fields)
  have b: "\<forall>packet \<in> set (packet_list (high_priority_packets starved_two))
                      \<union> set (packet_list (normal_priority_packets starved_two))
                      \<union> set (packet_list (low_priority_packets starved_two)).
           0 \<le> sint (bytes packet)
           \<and> - (2 ^ 31) \<le> sint (bytes_remaining (media_budget starved_two)) - sint (bytes packet)"
    by (simp add: starved_two_def starved_pacer_def)
  have r: "sint (target_rate_kbps (media_budget starved_two)) = 100"
    by (simp add: starved_two_fields)
  have c: "0 \<le> sint (target_rate_kbps (media_budget starved_two))"
    and d: "sint (target_rate_kbps (media_budget starved_two)) \<le> 21474836"
    by (simp_all add: r)
  have e: "sint ((\<lambda>n. 40 + of_nat n :: int64) (Suc (Suc (clock_reads starved_two)))
            - (\<lambda>n. 40 + of_nat n) (Suc (clock_reads starved_two))) \<le> 30"
    by (simp add: starved_two_fields)
  have v: "snd (Process_loop (\<lambda>n. 40 + of_nat n) starved_two) = [TimeToSendPacket 1 7 3]"
    by code_simp
  show ?thesis
    using a sizes r e v Process_loop_starved [OF a b c d e] by blast
qed

text \<open>
  C9 as stated fails when the sender callback takes more than 30 ms: each reading of
  the clock is 31 ms after the one before, the loop starts with a media budget of -750
  bytes, and both packets of normal priority are sent in one call of \<open>Process\<close>.
\<close>

theorem Process_loop_starved_counterexample:
  "sint (bytes_remaining (media_budget
           (Process_refilled (\<lambda>n. 40 + 31 * of_nat n) starved_two))) = - 750
   \<and> map (\<lambda>packet. sint (bytes packet))
         (packet_list (high_priority_packets starved_two)
          @ packet_list (normal_priority_packets starved_two)
          @ packet_list (low_priority_packets starved_two)) = [1500, 1500, 200]
   \<and> snd (Process (\<lambda>n. 40 + 31 * of_nat n) (\<lambda>n. n) starved_two)
       = [TimeToSendPacket 1 7 3, TimeToSendPacket 1 8 4]"
proof -
  have a: "sint (bytes_remaining (media_budget
           (Process_refilled (\<lambda>n. 40 + 31 * of_nat n) starved_two))) = - 750"
    by code_simp
  have b: "snd (Process (\<lambda>n. 40 + 31 * of_nat n) (\<lambda>n. n) starved_two)
       = [TimeToSendPacket 1 7 3, TimeToSendPacket 1 8 4]"
    by code_simp
  show ?thesis using a b by (simp add: starved_two_fields)
qed

section \<open>Enqueueing and delivery\<close>

lemma drain_order_note_sent [simp]: "drain_order (note_sent p s) = drain_order s"
  by (simp add: drain_order_def note_sent_def)













lemma drain_order_Now [simp]: "drain_order (snd (Now clk s)) = drain_order s"
  by (simp add: drain_order_def)







lemma packets_of_resumed_with [simp]: "packets_of q (resumed_with m s) = packets_of q s"
  by (cases q) (simp_all add: resumed_with_def Resume_def)

lemma drain_order_resumed_with [simp]: "drain_order (resumed_with m s) = drain_order s"
  by (simp add: drain_order_def resumed_with_def Resume_def)

lemma media_resumed_with [simp]:
  "bytes_remaining (media_budget (resumed_with m s)) = m"
  by (simp add: resumed_with_def Resume_def)


text \<open>
  Without media budget a packet of low priority stays queued: with a media target rate
  of 0 and an empty media budget, while the high and the normal list are empty and the
  low list is not, no number of calls of \<open>Process\<close> calls the callback.
\<close>

lemma Process_no_budget_low:
  assumes "media_budget s = \<lparr>target_rate_kbps = 0, bytes_remaining = 0\<rparr>"
    and "packet_list (high_priority_packets s) = []"
    and "packet_list (normal_priority_packets s) = []"
    and "packet_list (low_priority_packets s) \<noteq> []"
  shows "snd (Process clk bytes_sent s) = []"
    and "media_budget (fst (Process clk bytes_sent s)) = media_budget s"
    and "high_priority_packets (fst (Process clk bytes_sent s)) = high_priority_packets s"
    and "normal_priority_packets (fst (Process clk bytes_sent s)) = normal_priority_packets s"
    and "low_priority_packets (fst (Process clk bytes_sent s)) = low_priority_packets s"
proof -
  let ?r = "Process_refilled clk s"
  have m: "media_budget ?r = \<lparr>target_rate_kbps = 0, bytes_remaining = 0\<rparr>"
    by (simp add: Process_refilled_def UpdateBytesPerInterval_def IncreaseBudget_def assms(1)
        int_div_def)
  have l: "high_priority_packets ?r = high_priority_packets s"
    "normal_priority_packets ?r = normal_priority_packets s"
    "low_priority_packets ?r = low_priority_packets s"
    by (simp_all add: Process_refilled_def UpdateBytesPerInterval_def)
  have g: "GetNextPacket clk ?r = (None, snd (Now clk ?r))"
    by (simp add: GetNextPacket_def m l assms(2,3) PacketList_empty_def Let_def split_beta)
  then have loop: "Process_loop clk ?r = (snd (Now clk ?r), [])"
    by (simp add: Process_loop_None)
  have pad: "Process_padding bytes_sent (snd (Now clk ?r)) = (snd (Now clk ?r), [])"
    by (simp add: Process_padding_def l assms(4) PacketList_empty_def)
  have p: "Process clk bytes_sent s =
             (if \<not> paused s \<and> 0 < sint (Process_elapsed clk s) then (snd (Now clk ?r), [])
              else (s\<lparr>clock_reads := Suc (clock_reads s),
                      time_last_update := clk (clock_reads s)\<rparr>, []))"
    by (simp add: Process_unfold loop pad)
  show "snd (Process clk bytes_sent s) = []" by (simp add: p)
  show "media_budget (fst (Process clk bytes_sent s)) = media_budget s"
    by (simp add: p Now_def m assms(1))
  show "high_priority_packets (fst (Process clk bytes_sent s)) = high_priority_packets s"
    by (simp add: p l)
  show "normal_priority_packets (fst (Process clk bytes_sent s)) = normal_priority_packets s"
    by (simp add: p l)
  show "low_priority_packets (fst (Process clk bytes_sent s)) = low_priority_packets s"
    by (simp add: p l)
qed

lemma Process_ticks_no_budget_low:
  assumes "media_budget s = \<lparr>target_rate_kbps = 0, bytes_remaining = 0\<rparr>"
    and "packet_list (high_priority_packets s) = []"
    and "packet_list (normal_priority_packets s) = []"
    and "packet_list (low_priority_packets s) \<noteq> []"
  shows "snd (Process_ticks clk bytes_sent k s) = []"
  using assms
proof (induction k arbitrary: s)
  case 0
  show ?case by simp
next
  case (Suc k)
  note p = Process_no_budget_low [OF Suc.prems, of clk bytes_sent]
  have "snd (Process_ticks clk bytes_sent k (fst (Process clk bytes_sent s))) = []"
    using Suc.prems by (intro Suc.IH) (simp_all add: p)
  then show ?case by (simp add: split_beta p(1))
qed


end
